theory Spec2Isabelle
  imports Main
begin

section \<open>The self-updater of vscreen: a shallow embedding of updater.go\<close>

text \<open>
  The Go package keeps no state of its own between calls: everything it changes lives in
  the operating system (files, handles, processes). The embedding therefore threads an
  explicit \<open>world\<close> through every function. Each Go function that returns
  \<open>(value, error)\<close> becomes a HOL function returning the pair of its Go results together
  with the world it leaves behind; a \<open>nil\<close> error is \<open>None\<close>.

  Three library functions that the package calls but does not define are parameters of
  the model (record \<open>libs\<close>): the zip directory parser, the JSON decoder for \<open>Info\<close>
  and \<open>filepath.Dir\<close>.
\<close>

subsection \<open>Data\<close>

type_synonym path = string
type_synonym url = string
type_synonym bytes = string
type_synonym json_error = string

text \<open>info.go: \<open>type Info struct { Name, Version, Description string }\<close>.\<close>

record Info =
  Name :: string
  Version :: string
  Description :: string

text \<open>The value of \<open>var info Info\<close> and of \<open>Info{}\<close>.\<close>

definition zero_Info :: Info where
  "zero_Info = \<lparr>Name = [], Version = [], Description = []\<rparr>"

text \<open>updater.go: \<open>type Updater struct\<close>; a \<open>time.Duration\<close> is a count of nanoseconds.\<close>

record Updater =
  upstream :: url
  interval :: int
  execPath :: path

text \<open>One archive member: its name (\<open>f.Name\<close>) and its uncompressed content.\<close>

record zentry =
  zname :: string
  zdata :: bytes

record libs =
  zip_parse :: "bytes \<Rightarrow> zentry list option"
  json_decode :: "bytes \<Rightarrow> Info \<times> json_error option"
  filepath_Dir :: "path \<Rightarrow> path"

text \<open>
  \<open>zip_parse L bs\<close> is the member list of the archive with bytes \<open>bs\<close>, in directory
  order, or \<open>None\<close> when \<open>bs\<close> is not a zip archive. \<open>json_decode L bs\<close> is what
  \<open>json.NewDecoder(r).Decode(&info)\<close> leaves in a zero \<open>info\<close> when \<open>r\<close> yields
  \<open>bs\<close>, with the error it returns.
\<close>

text \<open>The operations of the operating system and the network that can fail.\<close>

datatype syscall =
    SysExecutable
  | SysRename path path
  | SysStartProcess path
  | SysFindProcess nat
  | SysKill nat
  | SysHttpGet url
  | SysBodyRead url
  | SysTempFile
  | SysWrite path
  | SysRemove path
  | SysZipOpen path
  | SysEntryOpen path nat
  | SysEntryRead path nat
  | SysCreate path

text \<open>
  Every error value the package can return, named after the call that produced it.
  \<open>MissingEntry\<close> is the value built by
  \<open>errors.New("info.json or binary file doesn't exist in archive")\<close>; \<open>DecodeErr\<close>
  carries the error of the JSON decoder.
\<close>

datatype error =
    ExecutableErr
  | RenameErr path path
  | SpawnErr path
  | FindProcessErr nat
  | KillErr nat
  | HttpErr url
  | BodyReadErr url
  | TempFileErr
  | WriteErr path
  | RemoveErr path
  | ZipOpenErr path
  | EntryOpenErr path nat
  | EntryReadErr path nat
  | MissingEntry
  | DecodeErr json_error
  | CreateErr path

record process =
  pid :: nat
  image :: path
  argv :: "string list"
  env :: "string list"
  dir :: path
  stdio :: "nat list"
  alive :: bool

text \<open>
  The world: the file system, the table of open handles (archive readers, entry readers,
  files, response bodies), the processes, what the current process was started with, what
  the upstream serves, the names the temporary-file generator will try, and \<open>faults\<close>,
  the calls that fail for reasons outside the model (permissions, a full disk, a reset
  connection).
\<close>

record world =
  files :: "path \<rightharpoonup> bytes"
  open_handles :: "nat list"
  next_handle :: nat
  procs :: "process list"
  self_pid :: nat
  next_pid :: nat
  os_Args :: "string list"
  os_Environ :: "string list"
  exe_link :: "path option"
  net :: "url \<rightharpoonup> bytes"
  tmp_names :: "nat \<Rightarrow> path"
  tmp_next :: nat
  faults :: "syscall \<Rightarrow> bool"

subsection \<open>Handles\<close>

definition alloc_handle :: "world \<Rightarrow> nat \<times> world" where
  "alloc_handle w =
     (next_handle w,
      w\<lparr>open_handles := next_handle w # open_handles w,
        next_handle := Suc (next_handle w)\<rparr>)"

definition close_handle :: "nat \<Rightarrow> world \<Rightarrow> world" where
  "close_handle h w = w\<lparr>open_handles := removeAll h (open_handles w)\<rparr>"

text \<open>An \<open>*os.File\<close> open for writing: its handle and the path it was opened at.\<close>

record os_file =
  fd :: nat
  fname :: path

text \<open>
  A \<open>*zip.ReadCloser\<close>: its handle, the archive's path and the names of the members
  in \<open>r.File\<close>, read from the directory when the archive is opened.
\<close>

record zip_reader =
  zr_handle :: nat
  zr_path :: path
  zr_File :: "string list"

text \<open>
  The \<open>io.ReadCloser\<close> of \<open>f.Open()\<close>: it reads member \<open>rc_index\<close> of the archive
  at \<open>rc_path\<close> when it is read from, not when it is opened.
\<close>

record entry_rc =
  rc_handle :: nat
  rc_path :: path
  rc_index :: nat

subsection \<open>File system and archive primitives\<close>

text \<open>\<open>os.Create\<close>: the file exists and is empty afterwards.\<close>

definition os_Create :: "path \<Rightarrow> world \<Rightarrow> (error + os_file) \<times> world" where
  "os_Create p w =
     (if faults w (SysCreate p) then (Inl (CreateErr p), w)
      else (case alloc_handle (w\<lparr>files := (files w)(p \<mapsto> [])\<rparr>) of
              (h, w') \<Rightarrow> (Inr \<lparr>fd = h, fname = p\<rparr>, w')))"

text \<open>
  \<open>os.Rename\<close>: fails, changing nothing, when the source does not exist; otherwise the
  source name is vacated and the target name holds the file.
\<close>

definition os_Rename :: "path \<Rightarrow> path \<Rightarrow> world \<Rightarrow> error option \<times> world" where
  "os_Rename src dst w =
     (if faults w (SysRename src dst) then (Some (RenameErr src dst), w)
      else (case files w src of
              None \<Rightarrow> (Some (RenameErr src dst), w)
            | Some c \<Rightarrow> (None, w\<lparr>files := ((files w)(src := None))(dst \<mapsto> c)\<rparr>)))"

text \<open>\<open>os.Remove\<close>; the caller drops its error.\<close>

definition os_Remove :: "path \<Rightarrow> world \<Rightarrow> error option \<times> world" where
  "os_Remove p w =
     (if faults w (SysRemove p) \<or> files w p = None then (Some (RemoveErr p), w)
      else (None, w\<lparr>files := (files w)(p := None)\<rparr>))"

text \<open>\<open>zip.OpenReader\<close>: opens the file and reads the archive directory.\<close>

definition zip_OpenReader :: "libs \<Rightarrow> path \<Rightarrow> world \<Rightarrow> (error + zip_reader) \<times> world" where
  "zip_OpenReader L p w =
     (if faults w (SysZipOpen p) then (Inl (ZipOpenErr p), w)
      else (case files w p of
              None \<Rightarrow> (Inl (ZipOpenErr p), w)
            | Some bs \<Rightarrow>
                (case zip_parse L bs of
                   None \<Rightarrow> (Inl (ZipOpenErr p), w)
                 | Some es \<Rightarrow>
                     (case alloc_handle w of
                        (h, w') \<Rightarrow>
                          (Inr \<lparr>zr_handle = h, zr_path = p, zr_File = map zname es\<rparr>, w')))))"

text \<open>\<open>f.Open()\<close> for the member at index \<open>i\<close> of \<open>r.File\<close>.\<close>

definition entry_Open :: "zip_reader \<Rightarrow> nat \<Rightarrow> world \<Rightarrow> (error + entry_rc) \<times> world" where
  "entry_Open r i w =
     (if faults w (SysEntryOpen (zr_path r) i) then (Inl (EntryOpenErr (zr_path r) i), w)
      else (case alloc_handle w of
              (h, w') \<Rightarrow> (Inr \<lparr>rc_handle = h, rc_path = zr_path r, rc_index = i\<rparr>, w')))"

text \<open>
  Reading an entry reader to its end: the member's content, taken from the archive file
  as it is at the time of the read.
\<close>

definition entry_read :: "libs \<Rightarrow> entry_rc \<Rightarrow> world \<Rightarrow> error + bytes" where
  "entry_read L rc w =
     (if faults w (SysEntryRead (rc_path rc) (rc_index rc))
      then Inl (EntryReadErr (rc_path rc) (rc_index rc))
      else (case files w (rc_path rc) of
              None \<Rightarrow> Inl (EntryReadErr (rc_path rc) (rc_index rc))
            | Some bs \<Rightarrow>
                (case zip_parse L bs of
                   None \<Rightarrow> Inl (EntryReadErr (rc_path rc) (rc_index rc))
                 | Some es \<Rightarrow>
                     (if rc_index rc < length es then Inr (zdata (es ! rc_index rc))
                      else Inl (EntryReadErr (rc_path rc) (rc_index rc))))))"

text \<open>
  \<open>json.NewDecoder(infoFile).Decode(&info)\<close>: a read error of the entry is returned as
  it is, an error of the decoder as \<open>DecodeErr\<close>.
\<close>

definition json_Decode :: "libs \<Rightarrow> entry_rc \<Rightarrow> world \<Rightarrow> Info \<times> error option" where
  "json_Decode L rc w =
     (case entry_read L rc w of
        Inl e \<Rightarrow> (zero_Info, Some e)
      | Inr bs \<Rightarrow> (case json_decode L bs of (i, e) \<Rightarrow> (i, map_option DecodeErr e)))"

text \<open>\<open>io.Copy(newFile, binaryFile)\<close>.\<close>

definition io_Copy :: "libs \<Rightarrow> os_file \<Rightarrow> entry_rc \<Rightarrow> world \<Rightarrow> error option \<times> world" where
  "io_Copy L dst src w =
     (case entry_read L src w of
        Inl e \<Rightarrow> (Some e, w)
      | Inr bs \<Rightarrow>
          (if faults w (SysWrite (fname dst)) then (Some (WriteErr (fname dst)), w)
           else (None, w\<lparr>files := (files w)(fname dst \<mapsto> bs)\<rparr>)))"

subsection \<open>unpack\<close>

text \<open>
  The loop of lines 131 to 144 over \<open>r.File\<close>, as a recursion over the members with
  their indices. The accumulator is the pair of variables \<open>(infoFile, binaryFile)\<close>,
  \<open>None\<close> for \<open>nil\<close>. The \<open>switch\<close> tests \<open>"info.json"\<close> first. A failing
  \<open>f.Open()\<close> returns at once.
\<close>

fun open_entries ::
  "Updater \<Rightarrow> zip_reader \<Rightarrow> (nat \<times> string) list \<Rightarrow> entry_rc option \<times> entry_rc option \<Rightarrow>
   world \<Rightarrow> (error option \<times> entry_rc option \<times> entry_rc option) \<times> world" where
  "open_entries u r [] (infoFile, binaryFile) w = ((None, infoFile, binaryFile), w)"
| "open_entries u r ((i, n) # fs) (infoFile, binaryFile) w =
     (case entry_Open r i w of
        (Inl e, w') \<Rightarrow> ((Some e, infoFile, binaryFile), w')
      | (Inr rc, w') \<Rightarrow>
          (if n = ''info.json'' then open_entries u r fs (Some rc, binaryFile) w'
           else if n = execPath u then open_entries u r fs (infoFile, Some rc) w'
           else open_entries u r fs (infoFile, binaryFile) w'))"

text \<open>
  \<open>unpack\<close>. The deferred calls run in reverse order of their \<open>defer\<close> statements, and
  only those whose \<open>defer\<close> statement was reached.
\<close>

definition unpack :: "libs \<Rightarrow> Updater \<Rightarrow> path \<Rightarrow> world \<Rightarrow> (Info \<times> error option) \<times> world" where
  "unpack L u p w =
     (case zip_OpenReader L p w of
        (Inl e, w1) \<Rightarrow> ((zero_Info, Some e), w1)
      | (Inr r, w1) \<Rightarrow>
          (case open_entries u r (enumerate 0 (zr_File r)) (None, None) w1 of
             ((Some e, _, _), w2) \<Rightarrow> ((zero_Info, Some e), close_handle (zr_handle r) w2)
           | ((None, None, _), w2) \<Rightarrow>
               ((zero_Info, Some MissingEntry), close_handle (zr_handle r) w2)
           | ((None, Some infoFile, None), w2) \<Rightarrow>
               ((zero_Info, Some MissingEntry), close_handle (zr_handle r) w2)
           | ((None, Some infoFile, Some binaryFile), w2) \<Rightarrow>
               (case json_Decode L infoFile w2 of
                  (info, Some e) \<Rightarrow>
                    ((info, Some e),
                     close_handle (zr_handle r)
                       (close_handle (rc_handle infoFile)
                         (close_handle (rc_handle binaryFile) w2)))
                | (info, None) \<Rightarrow>
                    (case os_Create (execPath u @ ''.new'') w2 of
                       (Inl e, w3) \<Rightarrow>
                         ((info, Some e),
                          close_handle (zr_handle r)
                            (close_handle (rc_handle infoFile)
                              (close_handle (rc_handle binaryFile) w3)))
                     | (Inr newFile, w3) \<Rightarrow>
                         (case io_Copy L newFile binaryFile w3 of
                            (err, w4) \<Rightarrow>
                              ((info, err),
                               close_handle (zr_handle r)
                                 (close_handle (rc_handle infoFile)
                                   (close_handle (rc_handle binaryFile)
                                     (close_handle (fd newFile) w4)))))))))"

subsection \<open>fetch and update\<close>

text \<open>An open response body: its handle and the address it comes from.\<close>

record response =
  body_handle :: nat
  body_url :: url

text \<open>
  \<open>http.Get\<close>: any response is a success, whatever its status code; the call fails
  when nothing answers.
\<close>

definition http_Get :: "url \<Rightarrow> world \<Rightarrow> (error + response) \<times> world" where
  "http_Get a w =
     (if faults w (SysHttpGet a) \<or> net w a = None then (Inl (HttpErr a), w)
      else (case alloc_handle w of
              (h, w') \<Rightarrow> (Inr \<lparr>body_handle = h, body_url = a\<rparr>, w')))"

text \<open>
  \<open>ioutil.TempFile("", "")\<close> tries generated names until one does not exist yet, gives
  up after 10000 names that exist, and creates the file empty.
\<close>

fun temp_try :: "nat \<Rightarrow> nat \<Rightarrow> world \<Rightarrow> nat option" where
  "temp_try 0 k w = None"
| "temp_try (Suc n) k w =
     (if files w (tmp_names w k) = None then Some k else temp_try n (Suc k) w)"

definition ioutil_TempFile :: "world \<Rightarrow> (error + os_file) \<times> world" where
  "ioutil_TempFile w =
     (if faults w SysTempFile then (Inl TempFileErr, w)
      else (case temp_try 10000 (tmp_next w) w of
              None \<Rightarrow> (Inl TempFileErr, w)
            | Some k \<Rightarrow>
                (case alloc_handle
                        (w\<lparr>files := (files w)(tmp_names w k \<mapsto> []), tmp_next := Suc k\<rparr>) of
                   (h, w') \<Rightarrow> (Inr \<lparr>fd = h, fname = tmp_names w k\<rparr>, w'))))"

text \<open>\<open>io.Copy(tmp, resp.Body)\<close>.\<close>

definition io_Copy_body :: "os_file \<Rightarrow> response \<Rightarrow> world \<Rightarrow> error option \<times> world" where
  "io_Copy_body dst src w =
     (if faults w (SysBodyRead (body_url src)) then (Some (BodyReadErr (body_url src)), w)
      else (case net w (body_url src) of
              None \<Rightarrow> (Some (BodyReadErr (body_url src)), w)
            | Some bs \<Rightarrow>
                (if faults w (SysWrite (fname dst)) then (Some (WriteErr (fname dst)), w)
                 else (None, w\<lparr>files := (files w)(fname dst \<mapsto> bs)\<rparr>))))"

text \<open>
  \<open>fetch\<close>. The last line returns \<open>tmp.Name()\<close> together with the error of the copy,
  so a failed copy still returns the name of the file it created.
\<close>

definition fetch :: "Updater \<Rightarrow> world \<Rightarrow> (path \<times> error option) \<times> world" where
  "fetch u w =
     (case http_Get (upstream u) w of
        (Inl e, w1) \<Rightarrow> (([], Some e), w1)
      | (Inr resp, w1) \<Rightarrow>
          (case ioutil_TempFile w1 of
             (Inl e, w2) \<Rightarrow> (([], Some e), close_handle (body_handle resp) w2)
           | (Inr tmp, w2) \<Rightarrow>
               (case io_Copy_body tmp resp w2 of
                  (err, w3) \<Rightarrow>
                    ((fname tmp, err),
                     close_handle (body_handle resp) (close_handle (fd tmp) w3)))))"

text \<open>
  \<open>update\<close>. The \<open>defer os.Remove(archivePath)\<close> is registered only after the error
  check, so it runs exactly when \<open>fetch\<close> returned no error, after \<open>unpack\<close>.
\<close>

definition update :: "libs \<Rightarrow> Updater \<Rightarrow> world \<Rightarrow> (Info \<times> error option) \<times> world" where
  "update L u w =
     (case fetch u w of
        ((archivePath, Some e), w1) \<Rightarrow> ((zero_Info, Some e), w1)
      | ((archivePath, None), w1) \<Rightarrow>
          (case unpack L u archivePath w1 of
             (res, w2) \<Rightarrow> (res, snd (os_Remove archivePath w2))))"

subsection \<open>NewUpdater and RestartAndUpdate\<close>

definition os_Executable :: "world \<Rightarrow> error + path" where
  "os_Executable w =
     (if faults w SysExecutable then Inl ExecutableErr
      else (case exe_link w of None \<Rightarrow> Inl ExecutableErr | Some p \<Rightarrow> Inr p))"

definition NewUpdater :: "url \<Rightarrow> int \<Rightarrow> world \<Rightarrow> error + Updater" where
  "NewUpdater up iv w =
     (case os_Executable w of
        Inl e \<Rightarrow> Inl e
      | Inr p \<Rightarrow> Inr \<lparr>upstream = up, interval = iv, execPath = p\<rparr>)"

text \<open>
  \<open>os.StartProcess(name, argv, attr)\<close> executes the file at \<open>name\<close>: it fails when no
  file is there. The new process gets the next free process id. The three entries of
  \<open>attr.Files\<close> are the descriptors 0, 1 and 2.
\<close>

definition os_StartProcess ::
  "path \<Rightarrow> string list \<Rightarrow> path \<Rightarrow> string list \<Rightarrow> nat list \<Rightarrow> world \<Rightarrow> (error + nat) \<times> world" where
  "os_StartProcess name args d e fs w =
     (if faults w (SysStartProcess name) \<or> files w name = None then (Inl (SpawnErr name), w)
      else (Inr (next_pid w),
            w\<lparr>procs := procs w @
                 [\<lparr>pid = next_pid w, image = name, argv = args, env = e, dir = d,
                   stdio = fs, alive = True\<rparr>],
              next_pid := Suc (next_pid w)\<rparr>))"

definition os_FindProcess :: "nat \<Rightarrow> world \<Rightarrow> error + nat" where
  "os_FindProcess p w = (if faults w (SysFindProcess p) then Inl (FindProcessErr p) else Inr p)"

text \<open>\<open>Process.Kill\<close>: fails when the process is not running any more.\<close>

definition process_Kill :: "nat \<Rightarrow> world \<Rightarrow> error option \<times> world" where
  "process_Kill p w =
     (if faults w (SysKill p) \<or> \<not> list_ex (\<lambda>q. pid q = p \<and> alive q) (procs w)
      then (Some (KillErr p), w)
      else (None, w\<lparr>procs := map (\<lambda>q. if pid q = p then q\<lparr>alive := False\<rparr> else q) (procs w)\<rparr>))"

definition RestartAndUpdate :: "libs \<Rightarrow> Updater \<Rightarrow> world \<Rightarrow> error option \<times> world" where
  "RestartAndUpdate L u w =
     (case os_Rename (execPath u) (execPath u @ ''.old'') w of
        (Some e, w1) \<Rightarrow> (Some e, w1)
      | (None, w1) \<Rightarrow>
          (case os_StartProcess (execPath u) (os_Args w1) (filepath_Dir L (execPath u))
                  (os_Environ w1) [0, 1, 2] w1 of
             (Inl e, w2) \<Rightarrow> (Some e, w2)
           | (Inr new, w2) \<Rightarrow>
               (case os_FindProcess (self_pid w2) w2 of
                  Inl e \<Rightarrow> (Some e, w2)
                | Inr old \<Rightarrow> process_Kill old w2)))"

subsection \<open>StartUpdater\<close>

text \<open>
  The goroutine of \<open>StartUpdater\<close> is sequential code: a \<open>select\<close> over the ticker and
  the context, and in the ticker case a call of \<open>update\<close> followed by a send on the
  unbuffered channel. What the model takes from outside is the sequence of choices the
  \<open>select\<close> makes, and for each ticker choice whether a receiver takes the value sent
  in that round (\<open>True\<close>) or the send blocks for ever (\<open>False\<close>).
\<close>

datatype select_case = TickerC bool | CtxDone

text \<open>Where the goroutine is when the choices are used up.\<close>

datatype loop_state = AtSelect | Exited | BlockedOnSend Info

fun poll_loop ::
  "libs \<Rightarrow> Updater \<Rightarrow> select_case list \<Rightarrow> world \<Rightarrow> Info list \<times> loop_state \<times> world" where
  "poll_loop L u [] w = ([], AtSelect, w)"
| "poll_loop L u (CtxDone # cs) w = ([], Exited, w)"
| "poll_loop L u (TickerC rcv # cs) w =
     (case update L u w of
        ((info, Some e), w') \<Rightarrow> poll_loop L u cs w'
      | ((info, None), w') \<Rightarrow>
          (if rcv
           then (case poll_loop L u cs w' of (out, st, w'') \<Rightarrow> (info # out, st, w''))
           else ([], BlockedOnSend info, w')))"

text \<open>
  \<open>StartUpdater\<close>: \<open>time.NewTicker\<close> panics on an interval that is not positive
  (\<open>None\<close>); otherwise the goroutine runs. The result lists the values received from
  the returned channel. Nothing in the goroutine looks at the context while \<open>update\<close>
  runs, which is why a cycle is one step of \<open>poll_loop\<close>.
\<close>

definition StartUpdater ::
  "libs \<Rightarrow> Updater \<Rightarrow> select_case list \<Rightarrow> world \<Rightarrow> (Info list \<times> loop_state \<times> world) option" where
  "StartUpdater L u cs w = (if interval u \<le> 0 then None else Some (poll_loop L u cs w))"

subsection \<open>Sequential cycles\<close>

text \<open>
  \<open>run_cycles L u n w\<close> calls \<open>update\<close> \<open>n\<close> times, one call after the other, and
  lists the results in the order of the calls. \<open>emitted rs\<close> are the values of the
  results that carry no error, in the same order.
\<close>

fun run_cycles :: "libs \<Rightarrow> Updater \<Rightarrow> nat \<Rightarrow> world \<Rightarrow> (Info \<times> error option) list \<times> world" where
  "run_cycles L u 0 w = ([], w)"
| "run_cycles L u (Suc n) w =
     (case update L u w of
        (r, w') \<Rightarrow> (case run_cycles L u n w' of (rs, w'') \<Rightarrow> (r # rs, w'')))"

definition emitted :: "(Info \<times> error option) list \<Rightarrow> Info list" where
  "emitted rs = map fst (filter (\<lambda>r. snd r = None) rs)"

fun is_tick :: "select_case \<Rightarrow> bool" where
  "is_tick (TickerC rcv) = True"
| "is_tick CtxDone = False"

subsection \<open>A concrete installation\<close>

text \<open>
  The scenario of the specification, used wherever a statement is evaluated at a concrete
  input: the service \<open>svc\<close> installed at \<open>/opt/svc/bin/svc\<close>, release 1.2.3 upstream.
  The zip parser of the scenario knows the archives of \<open>scenario_archives\<close> by their
  bytes; its JSON decoder accepts the one metadata document of the scenario.
\<close>

definition scenario_exe :: path where
  "scenario_exe = ''/opt/svc/bin/svc''"

definition scenario_json :: bytes where
  \<open>scenario_json = ''{"name":"svc","version":"1.2.3","description":"x"}''\<close>

definition scenario_info :: Info where
  "scenario_info = \<lparr>Name = ''svc'', Version = ''1.2.3'', Description = ''x''\<rparr>"

definition info_entry :: zentry where
  "info_entry = \<lparr>zname = ''info.json'', zdata = scenario_json\<rparr>"

definition binary_entry :: zentry where
  "binary_entry = \<lparr>zname = scenario_exe, zdata = ''ELF svc 1.2.3''\<rparr>"

text \<open>A metadata member cut off in the middle of the document.\<close>

definition truncated_json :: bytes where
  \<open>truncated_json = ''{"name":''\<close>

definition truncated_entry :: zentry where
  "truncated_entry = \<lparr>zname = ''info.json'', zdata = truncated_json\<rparr>"

definition scenario_archives :: "(bytes \<times> zentry list) list" where
  \<open>scenario_archives =
     [(''zip:full'', [info_entry, binary_entry]),
      (''zip:no-info'', [binary_entry]),
      (''zip:no-binary'', [info_entry]),
      (''zip:bad-json'', [truncated_entry, binary_entry]),
      (''zip:readme'', [\<lparr>zname = ''README'', zdata = ''release notes''\<rparr>, info_entry, binary_entry]),
      (''zip:relative'', [info_entry, \<lparr>zname = ''svc'', zdata = ''ELF svc 1.2.3''\<rparr>])]\<close>

definition scenario_libs :: libs where
  "scenario_libs =
     \<lparr>zip_parse = map_of scenario_archives,
      json_decode = (\<lambda>bs. if bs = scenario_json then (scenario_info, None)
                          else (zero_Info, Some ''unexpected end of JSON input'')),
      filepath_Dir = (\<lambda>p. rev (drop 1 (dropWhile (\<lambda>c. c \<noteq> CHR ''/'') (rev p))))\<rparr>"

definition scenario_updater :: Updater where
  "scenario_updater =
     \<lparr>upstream = ''http://upstream/svc.zip'', interval = 60000000000, execPath = scenario_exe\<rparr>"

text \<open>
  The world of the scenario: the archive \<open>a\<close> is at \<open>/tmp/archive.zip\<close> and is what
  the upstream serves; \<open>flt\<close> are the calls that fail.
\<close>

definition scenario_world :: "bytes \<Rightarrow> (syscall \<Rightarrow> bool) \<Rightarrow> world" where
  "scenario_world a flt =
     \<lparr>files = [''/tmp/archive.zip'' \<mapsto> a, scenario_exe \<mapsto> ''ELF svc 1.0.0''],
      open_handles = [],
      next_handle = 3,
      procs = [\<lparr>pid = 100, image = scenario_exe, argv = [''svc'', ''--listen'', '':80''],
                env = [''HOME=/root''], dir = ''/'', stdio = [0, 1, 2], alive = True\<rparr>],
      self_pid = 100,
      next_pid = 101,
      os_Args = [''svc'', ''--listen'', '':80''],
      os_Environ = [''HOME=/root''],
      exe_link = Some scenario_exe,
      net = [''http://upstream/svc.zip'' \<mapsto> a],
      tmp_names = (\<lambda>n. ''/tmp/'' @ replicate (Suc n) (CHR ''7'')),
      tmp_next = 0,
      faults = flt\<rparr>"

section \<open>Properties\<close>

subsection \<open>The loop over the archive members\<close>

lemma entry_Open_ok:
  "\<not> faults w (SysEntryOpen (zr_path r) i) \<Longrightarrow>
   entry_Open r i w =
     (Inr \<lparr>rc_handle = next_handle w, rc_path = zr_path r, rc_index = i\<rparr>,
      w\<lparr>open_handles := next_handle w # open_handles w, next_handle := Suc (next_handle w)\<rparr>)"
  by (simp add: entry_Open_def alloc_handle_def)

lemma entry_Open_fail:
  "faults w (SysEntryOpen (zr_path r) i) \<Longrightarrow>
   entry_Open r i w = (Inl (EntryOpenErr (zr_path r) i), w)"
  by (simp add: entry_Open_def)

lemma entry_Open_files [simp]: "files (snd (entry_Open r i w)) = files w"
  by (simp add: entry_Open_def alloc_handle_def)

lemma entry_Open_faults [simp]: "faults (snd (entry_Open r i w)) = faults w"
  by (simp add: entry_Open_def alloc_handle_def)

lemma open_entries_files [simp]: "files (snd (open_entries u r xs acc w)) = files w"
proof (induction xs arbitrary: acc w)
  case Nil
  show ?case by (cases acc) simp
next
  case (Cons x xs)
  obtain i n where x: "x = (i, n)" by (cases x)
  obtain a b where acc: "acc = (a, b)" by (cases acc)
  show ?case
  proof (cases "faults w (SysEntryOpen (zr_path r) i)")
    case True
    then show ?thesis by (simp add: x acc entry_Open_fail)
  next
    case False
    then show ?thesis by (simp add: x acc entry_Open_ok Cons.IH)
  qed
qed

lemma open_entries_faults [simp]: "faults (snd (open_entries u r xs acc w)) = faults w"
proof (induction xs arbitrary: acc w)
  case Nil
  show ?case by (cases acc) simp
next
  case (Cons x xs)
  obtain i n where x: "x = (i, n)" by (cases x)
  obtain a b where acc: "acc = (a, b)" by (cases acc)
  show ?case
  proof (cases "faults w (SysEntryOpen (zr_path r) i)")
    case True
    then show ?thesis by (simp add: x acc entry_Open_fail)
  next
    case False
    then show ?thesis by (simp add: x acc entry_Open_ok Cons.IH)
  qed
qed

lemma open_entries_noerr:
  "\<forall>i. \<not> faults w (SysEntryOpen (zr_path r) i) \<Longrightarrow>
   fst (fst (open_entries u r xs acc w)) = None"
proof (induction xs arbitrary: acc w)
  case Nil
  show ?case by (cases acc) simp
next
  case (Cons x xs)
  obtain i n where x: "x = (i, n)" by (cases x)
  obtain a b where acc: "acc = (a, b)" by (cases acc)
  from Cons.prems show ?case by (simp add: x acc entry_Open_ok Cons.IH)
qed

lemma open_entries_info_keep:
  "''info.json'' \<notin> snd ` set xs \<Longrightarrow>
   fst (snd (fst (open_entries u r xs (a, b) w))) = a"
proof (induction xs arbitrary: a b w)
  case Nil
  show ?case by simp
next
  case (Cons x xs)
  obtain i n where x: "x = (i, n)" by (cases x)
  from Cons.prems show ?case
    by (cases "faults w (SysEntryOpen (zr_path r) i)")
       (auto simp add: x entry_Open_ok entry_Open_fail Cons.IH)
qed

lemma open_entries_binary_keep:
  "execPath u \<notin> snd ` set xs \<or> execPath u = ''info.json'' \<Longrightarrow>
   snd (snd (fst (open_entries u r xs (a, b) w))) = b"
proof (induction xs arbitrary: a b w)
  case Nil
  show ?case by simp
next
  case (Cons x xs)
  obtain i n where x: "x = (i, n)" by (cases x)
  from Cons.prems show ?case
    by (cases "faults w (SysEntryOpen (zr_path r) i)")
       (auto simp add: x entry_Open_ok entry_Open_fail Cons.IH)
qed

lemma open_entries_info_pick:
  "\<forall>i. \<not> faults w (SysEntryOpen (zr_path r) i) \<Longrightarrow>
   xs = pre @ (i, ''info.json'') # post \<Longrightarrow> ''info.json'' \<notin> snd ` set post \<Longrightarrow>
   \<exists>h. fst (snd (fst (open_entries u r xs (a, b) w))) =
        Some \<lparr>rc_handle = h, rc_path = zr_path r, rc_index = i\<rparr>"
proof (induction pre arbitrary: xs a b w)
  case Nil
  then show ?case by (simp add: entry_Open_ok open_entries_info_keep)
next
  case (Cons x pre)
  obtain j n where x: "x = (j, n)" by (cases x)
  from Cons.prems show ?case by (simp add: x entry_Open_ok Cons.IH)
qed

lemma open_entries_binary_pick:
  "\<forall>i. \<not> faults w (SysEntryOpen (zr_path r) i) \<Longrightarrow> execPath u \<noteq> ''info.json'' \<Longrightarrow>
   xs = pre @ (i, execPath u) # post \<Longrightarrow> execPath u \<notin> snd ` set post \<Longrightarrow>
   \<exists>h. snd (snd (fst (open_entries u r xs (a, b) w))) =
        Some \<lparr>rc_handle = h, rc_path = zr_path r, rc_index = i\<rparr>"
proof (induction pre arbitrary: xs a b w)
  case Nil
  then show ?case by (simp add: entry_Open_ok open_entries_binary_keep)
next
  case (Cons x pre)
  obtain j n where x: "x = (j, n)" by (cases x)
  from Cons.prems show ?case by (simp add: x entry_Open_ok Cons.IH)
qed


lemma open_entries_err:
  "fst (fst (open_entries u r xs acc w)) = Some e \<Longrightarrow> \<exists>i. e = EntryOpenErr (zr_path r) i"
proof (induction xs arbitrary: acc w)
  case Nil
  then show ?case by (cases acc) simp
next
  case (Cons x xs)
  obtain i n where x: "x = (i, n)" by (cases x)
  obtain a b where acc: "acc = (a, b)" by (cases acc)
  show ?case
  proof (cases "faults w (SysEntryOpen (zr_path r) i)")
    case True
    with Cons.prems show ?thesis by (auto simp add: x acc entry_Open_fail)
  next
    case False
    with Cons.prems show ?thesis
      by (auto simp add: x acc entry_Open_ok split: if_splits dest: Cons.IH)
  qed
qed

lemma snd_set_enumerate: "snd ` set (enumerate n xs) = set xs"
  by (metis list.set_map map_snd_enumerate)

subsection \<open>The exits of unpack\<close>

lemma close_handle_files [simp]: "files (close_handle h w) = files w"
  by (simp add: close_handle_def)

lemma close_handle_faults [simp]: "faults (close_handle h w) = faults w"
  by (simp add: close_handle_def)

lemma zip_OpenReader_ok:
  "files w p = Some bs \<Longrightarrow> zip_parse L bs = Some es \<Longrightarrow> \<not> faults w (SysZipOpen p) \<Longrightarrow>
   zip_OpenReader L p w =
     (Inr \<lparr>zr_handle = next_handle w, zr_path = p, zr_File = map zname es\<rparr>,
      w\<lparr>open_handles := next_handle w # open_handles w, next_handle := Suc (next_handle w)\<rparr>)"
  by (simp add: zip_OpenReader_def alloc_handle_def)

lemma zip_OpenReader_files [simp]: "files (snd (zip_OpenReader L p w)) = files w"
  by (simp add: zip_OpenReader_def alloc_handle_def split: option.splits)

lemma zip_OpenReader_faults [simp]: "faults (snd (zip_OpenReader L p w)) = faults w"
  by (simp add: zip_OpenReader_def alloc_handle_def split: option.splits)

lemma zip_OpenReader_path:
  "fst (zip_OpenReader L p w) = Inr r \<Longrightarrow> zr_path r = p"
  by (auto simp add: zip_OpenReader_def alloc_handle_def split: option.splits if_splits)

text \<open>The part of \<open>unpack\<close> after the loop, as a function of the loop's result.\<close>

lemma unpack_unfold:
  assumes "zip_OpenReader L p w = (Inr r, w1)"
    and "open_entries u r (enumerate 0 (zr_File r)) (None, None) w1 = ((err, a, b), w2)"
  shows "unpack L u p w =
     (case (err, a, b) of
        (Some e, _, _) \<Rightarrow> ((zero_Info, Some e), close_handle (zr_handle r) w2)
      | (None, None, _) \<Rightarrow> ((zero_Info, Some MissingEntry), close_handle (zr_handle r) w2)
      | (None, Some infoFile, None) \<Rightarrow>
          ((zero_Info, Some MissingEntry), close_handle (zr_handle r) w2)
      | (None, Some infoFile, Some binaryFile) \<Rightarrow>
          (case json_Decode L infoFile w2 of
             (info, Some e) \<Rightarrow>
               ((info, Some e),
                close_handle (zr_handle r)
                  (close_handle (rc_handle infoFile) (close_handle (rc_handle binaryFile) w2)))
           | (info, None) \<Rightarrow>
               (case os_Create (execPath u @ ''.new'') w2 of
                  (Inl e, w3) \<Rightarrow>
                    ((info, Some e),
                     close_handle (zr_handle r)
                       (close_handle (rc_handle infoFile)
                         (close_handle (rc_handle binaryFile) w3)))
                | (Inr newFile, w3) \<Rightarrow>
                    (case io_Copy L newFile binaryFile w3 of
                       (err, w4) \<Rightarrow>
                         ((info, err),
                          close_handle (zr_handle r)
                            (close_handle (rc_handle infoFile)
                              (close_handle (rc_handle binaryFile)
                                (close_handle (fd newFile) w4))))))))"
  using assms by (simp add: unpack_def)

lemma unpack_missing_files:
  assumes miss: "''info.json'' \<notin> set (zr_File r) \<or> execPath u \<notin> set (zr_File r) \<or>
                 execPath u = ''info.json''"
    and z: "zip_OpenReader L p w = (Inr r, w1)"
  shows "files (snd (unpack L u p w)) = files w \<and>
         (\<exists>e. fst (unpack L u p w) = (zero_Info, Some e) \<and>
              (e = MissingEntry \<or> (\<exists>i. e = EntryOpenErr p i))) \<and>
         ((\<forall>i. \<not> faults w (SysEntryOpen p i)) \<longrightarrow>
            fst (unpack L u p w) = (zero_Info, Some MissingEntry))"
proof -
  obtain err a b w2 where
    oe: "open_entries u r (enumerate 0 (zr_File r)) (None, None) w1 = ((err, a, b), w2)"
    by (metis prod_cases3 surj_pair)
  have f2: "files w2 = files w"
    using open_entries_files [of u r "enumerate 0 (zr_File r)" "(None, None)" w1]
      zip_OpenReader_files [of L p w] by (simp add: oe z)
  have rp: "zr_path r = p" using z zip_OpenReader_path [of L p w r] by simp
  have ab: "a = None \<or> b = None"
  proof -
    from miss
    have "''info.json'' \<notin> set (zr_File r) \<or>
          (execPath u \<notin> set (zr_File r) \<or> execPath u = ''info.json'')" by blast
    then show ?thesis
    proof
      assume "''info.json'' \<notin> set (zr_File r)"
      then have "fst (snd (fst (open_entries u r (enumerate 0 (zr_File r)) (None, None) w1))) = None"
        by (simp add: open_entries_info_keep snd_set_enumerate)
      then show ?thesis by (simp add: oe)
    next
      assume "execPath u \<notin> set (zr_File r) \<or> execPath u = ''info.json''"
      then have "snd (snd (fst (open_entries u r (enumerate 0 (zr_File r)) (None, None) w1))) = None"
        by (simp add: open_entries_binary_keep snd_set_enumerate)
      then show ?thesis by (simp add: oe)
    qed
  qed
  have er: "err = None \<or> (\<exists>i. err = Some (EntryOpenErr p i))"
  proof (cases err)
    case None
    then show ?thesis by simp
  next
    case (Some e)
    then show ?thesis
      using open_entries_err [of u r "enumerate 0 (zr_File r)" "(None, None)" w1 e] rp
      by (simp add: oe)
  qed
  have g1: "faults w1 = faults w" using zip_OpenReader_faults [of L p w] by (simp add: z)
  have en: "(\<forall>i. \<not> faults w (SysEntryOpen p i)) \<longrightarrow> err = None"
  proof
    assume "\<forall>i. \<not> faults w (SysEntryOpen p i)"
    then have "\<forall>i. \<not> faults w1 (SysEntryOpen (zr_path r) i)" by (simp add: g1 rp)
    from open_entries_noerr [OF this, of u "enumerate 0 (zr_File r)" "(None, None)"]
    show "err = None" by (simp add: oe)
  qed
  show ?thesis
    using ab er f2 en by (auto simp add: unpack_unfold [OF z oe] split: option.splits)
qed

lemma os_Create_err: "fst (os_Create q w) = Inl e \<Longrightarrow> e = CreateErr q \<and> snd (os_Create q w) = w"
  by (auto simp add: os_Create_def alloc_handle_def split: if_splits)

lemma io_Copy_err:
  "fst (io_Copy L d s w) = Some e \<Longrightarrow>
   e = EntryReadErr (rc_path s) (rc_index s) \<or> e = WriteErr (fname d)"
  by (auto simp add: io_Copy_def entry_read_def split: if_splits option.splits sum.splits)

text \<open>
  Claim C10. \<open>unpack\<close> decodes the metadata before it creates the staged file: whenever
  it returns the missing-entry error or an error of the JSON decoder, the file system is
  what it was before the call, so no file was created at \<open>execPath + ".new"\<close>.
\<close>

theorem unpack_no_staged_file_on_early_error:
  assumes e: "snd (fst (unpack L u p w)) = Some MissingEntry \<or>
              (\<exists>je. snd (fst (unpack L u p w)) = Some (DecodeErr je))"
  shows "files (snd (unpack L u p w)) = files w"
proof (cases "zip_OpenReader L p w")
  case (Pair x w1)
  have f1: "files w1 = files w" using zip_OpenReader_files [of L p w] by (simp add: Pair)
  show ?thesis
  proof (cases x)
    case (Inl e')
    then show ?thesis using Pair f1 by (simp add: unpack_def)
  next
    case (Inr r)
    have z: "zip_OpenReader L p w = (Inr r, w1)" using Pair Inr by simp
    obtain err a b w2 where
      oe: "open_entries u r (enumerate 0 (zr_File r)) (None, None) w1 = ((err, a, b), w2)"
      by (metis prod_cases3 surj_pair)
    have f2: "files w2 = files w"
      using open_entries_files [of u r "enumerate 0 (zr_File r)" "(None, None)" w1] f1
      by (simp add: oe)
    show ?thesis
    proof (cases "err = None \<and> a \<noteq> None \<and> b \<noteq> None")
      case False
      then show ?thesis
        using f2 by (auto simp add: unpack_unfold [OF z oe] split: option.splits)
    next
      case True
      then obtain ia ib where ab: "err = None" "a = Some ia" "b = Some ib" by auto
      obtain info je where jd: "json_Decode L ia w2 = (info, je)" by (cases "json_Decode L ia w2")
      show ?thesis
      proof (cases je)
        case (Some e')
        then show ?thesis using f2 by (simp add: unpack_unfold [OF z oe] ab jd)
      next
        case None
        obtain c w3 where cr: "os_Create (execPath u @ ''.new'') w2 = (c, w3)"
          by (cases "os_Create (execPath u @ ''.new'') w2")
        show ?thesis
        proof (cases c)
          case (Inl e')
          then show ?thesis
            using f2 os_Create_err [of "execPath u @ ''.new''" w2 e']
            by (simp add: unpack_unfold [OF z oe] ab jd None cr)
        next
          case (Inr newFile)
          obtain ce w4 where cp: "io_Copy L newFile ib w3 = (ce, w4)"
            by (cases "io_Copy L newFile ib w3")
          have "ce \<noteq> Some MissingEntry" "\<And>je. ce \<noteq> Some (DecodeErr je)"
            using io_Copy_err [of L newFile ib w3] by (auto simp add: cp)
          moreover have "snd (fst (unpack L u p w)) = ce"
            by (simp add: unpack_unfold [OF z oe] ab jd None cr Inr cp)
          ultimately show ?thesis using e by auto
        qed
      qed
    qed
  qed
qed

text \<open>The run on an archive that has both members, when no call fails.\<close>

lemma unpack_loop_result:
  assumes f: "files w p = Some bs" and zp: "zip_parse L bs = Some es"
    and nz: "\<not> faults w (SysZipOpen p)"
    and no: "\<forall>i. \<not> faults w (SysEntryOpen p i)"
    and ie: "es = ipre @ ie # ipost" "zname ie = ''info.json''"
            "''info.json'' \<notin> zname ` set ipost"
    and be: "es = bpre @ be # bpost" "zname be = execPath u"
            "execPath u \<notin> zname ` set bpost"
    and ne: "execPath u \<noteq> ''info.json''"
  shows "\<exists>r w1 w2 h1 h2.
           zip_OpenReader L p w = (Inr r, w1) \<and>
           open_entries u r (enumerate 0 (zr_File r)) (None, None) w1 =
             ((None, Some \<lparr>rc_handle = h1, rc_path = p, rc_index = length ipre\<rparr>,
                     Some \<lparr>rc_handle = h2, rc_path = p, rc_index = length bpre\<rparr>), w2) \<and>
           files w2 = files w \<and> faults w2 = faults w"
proof -
  define r where "r = \<lparr>zr_handle = next_handle w, zr_path = p, zr_File = map zname es\<rparr>"
  define w1 where
    "w1 = w\<lparr>open_handles := next_handle w # open_handles w, next_handle := Suc (next_handle w)\<rparr>"
  have z: "zip_OpenReader L p w = (Inr r, w1)"
    using zip_OpenReader_ok [OF f zp nz] by (simp add: r_def w1_def)
  have rp: "zr_path r = p" and rf: "zr_File r = map zname es" by (simp_all add: r_def)
  have no1: "\<forall>i. \<not> faults w1 (SysEntryOpen (zr_path r) i)"
    using no by (simp add: w1_def rp)
  let ?xs = "enumerate 0 (zr_File r)"
  obtain err a b w2 where oe: "open_entries u r ?xs (None, None) w1 = ((err, a, b), w2)"
    by (metis prod_cases3 surj_pair)
  have err: "err = None"
    using open_entries_noerr [OF no1, of u ?xs "(None, None)"] by (simp add: oe)
  have xi: "?xs = enumerate 0 (map zname ipre) @ (length ipre, ''info.json'') #
                  enumerate (Suc (length ipre)) (map zname ipost)"
    using ie by (simp add: rf enumerate_append_eq)
  have xb: "?xs = enumerate 0 (map zname bpre) @ (length bpre, execPath u) #
                  enumerate (Suc (length bpre)) (map zname bpost)"
    using be by (simp add: rf enumerate_append_eq)
  have "\<exists>h. fst (snd (fst (open_entries u r ?xs (None, None) w1))) =
          Some \<lparr>rc_handle = h, rc_path = zr_path r, rc_index = length ipre\<rparr>"
    using ie(3) by (intro open_entries_info_pick [OF no1 xi]) (simp add: snd_set_enumerate)
  then obtain h1 where a: "a = Some \<lparr>rc_handle = h1, rc_path = p, rc_index = length ipre\<rparr>"
    by (auto simp add: oe rp)
  have "\<exists>h. snd (snd (fst (open_entries u r ?xs (None, None) w1))) =
          Some \<lparr>rc_handle = h, rc_path = zr_path r, rc_index = length bpre\<rparr>"
    using be(3) by (intro open_entries_binary_pick [OF no1 ne xb]) (simp add: snd_set_enumerate)
  then obtain h2 where b: "b = Some \<lparr>rc_handle = h2, rc_path = p, rc_index = length bpre\<rparr>"
    by (auto simp add: oe rp)
  have "files w2 = files w1"
    using open_entries_files [of u r ?xs "(None, None)" w1] by (simp add: oe)
  then have f2: "files w2 = files w" by (simp add: w1_def)
  have "faults w2 = faults w1"
    using open_entries_faults [of u r ?xs "(None, None)" w1] by (simp add: oe)
  then have g2: "faults w2 = faults w" by (simp add: w1_def)
  show ?thesis using z oe err a b f2 g2 by blast
qed

lemma entry_read_ok:
  "files w p = Some bs \<Longrightarrow> zip_parse L bs = Some (pre @ e # post) \<Longrightarrow>
   \<not> faults w (SysEntryRead p (length pre)) \<Longrightarrow>
   entry_read L \<lparr>rc_handle = h, rc_path = p, rc_index = length pre\<rparr> w = Inr (zdata e)"
  by (simp add: entry_read_def)

lemma unpack_decode_error:
  assumes f: "files w p = Some bs" and zp: "zip_parse L bs = Some es"
    and nz: "\<not> faults w (SysZipOpen p)"
    and no: "\<forall>i. \<not> faults w (SysEntryOpen p i)"
    and nr: "\<forall>i. \<not> faults w (SysEntryRead p i)"
    and ie: "es = ipre @ ie # ipost" "zname ie = ''info.json''"
            "''info.json'' \<notin> zname ` set ipost"
    and be: "es = bpre @ be # bpost" "zname be = execPath u"
            "execPath u \<notin> zname ` set bpost"
    and ne: "execPath u \<noteq> ''info.json''"
    and jd: "json_decode L (zdata ie) = (info, Some j)"
  shows "fst (unpack L u p w) = (info, Some (DecodeErr j))"
proof -
  from unpack_loop_result [OF f zp nz no ie be ne]
  obtain r w1 w2 h1 h2 where
    z: "zip_OpenReader L p w = (Inr r, w1)" and
    oe: "open_entries u r (enumerate 0 (zr_File r)) (None, None) w1 =
           ((None, Some \<lparr>rc_handle = h1, rc_path = p, rc_index = length ipre\<rparr>,
                   Some \<lparr>rc_handle = h2, rc_path = p, rc_index = length bpre\<rparr>), w2)" and
    f2: "files w2 = files w" and g2: "faults w2 = faults w"
    by blast
  have rd: "entry_read L \<lparr>rc_handle = h1, rc_path = p, rc_index = length ipre\<rparr> w2 = Inr (zdata ie)"
    using f zp nr ie(1) by (intro entry_read_ok [where bs = bs and post = ipost]) (simp_all add: f2 g2)
  have "json_Decode L \<lparr>rc_handle = h1, rc_path = p, rc_index = length ipre\<rparr> w2 =
          (info, Some (DecodeErr j))"
    by (simp add: json_Decode_def rd jd)
  then show ?thesis by (simp add: unpack_unfold [OF z oe])
qed

lemma unpack_success:
  assumes f: "files w p = Some bs" and zp: "zip_parse L bs = Some es"
    and nz: "\<not> faults w (SysZipOpen p)"
    and no: "\<forall>i. \<not> faults w (SysEntryOpen p i)"
    and nr: "\<forall>i. \<not> faults w (SysEntryRead p i)"
    and nc: "\<not> faults w (SysCreate (execPath u @ ''.new''))"
    and nw: "\<not> faults w (SysWrite (execPath u @ ''.new''))"
    and ie: "es = ipre @ ie # ipost" "zname ie = ''info.json''"
            "''info.json'' \<notin> zname ` set ipost"
    and be: "es = bpre @ be # bpost" "zname be = execPath u"
            "execPath u \<notin> zname ` set bpost"
    and ne: "execPath u \<noteq> ''info.json''"
    and jd: "json_decode L (zdata ie) = (info, None)"
    and pn: "p \<noteq> execPath u @ ''.new''"
  shows "fst (unpack L u p w) = (info, None) \<and>
         files (snd (unpack L u p w)) = (files w)(execPath u @ ''.new'' \<mapsto> zdata be)"
proof -
  from unpack_loop_result [OF f zp nz no ie be ne]
  obtain r w1 w2 h1 h2 where
    z: "zip_OpenReader L p w = (Inr r, w1)" and
    oe: "open_entries u r (enumerate 0 (zr_File r)) (None, None) w1 =
           ((None, Some \<lparr>rc_handle = h1, rc_path = p, rc_index = length ipre\<rparr>,
                   Some \<lparr>rc_handle = h2, rc_path = p, rc_index = length bpre\<rparr>), w2)" and
    f2: "files w2 = files w" and g2: "faults w2 = faults w"
    by blast
  let ?n = "execPath u @ ''.new''"
  have rd: "entry_read L \<lparr>rc_handle = h1, rc_path = p, rc_index = length ipre\<rparr> w2 = Inr (zdata ie)"
    using f zp nr ie(1) by (intro entry_read_ok [where bs = bs and post = ipost]) (simp_all add: f2 g2)
  have js: "json_Decode L \<lparr>rc_handle = h1, rc_path = p, rc_index = length ipre\<rparr> w2 = (info, None)"
    by (simp add: json_Decode_def rd jd)
  define w3 where "w3 = snd (os_Create ?n w2)"
  have cr: "os_Create ?n w2 = (Inr \<lparr>fd = next_handle w2, fname = ?n\<rparr>, w3)"
    using nc by (simp add: w3_def os_Create_def alloc_handle_def g2)
  have f3: "files w3 = (files w)(?n \<mapsto> [])" and g3: "faults w3 = faults w"
    using nc by (simp_all add: w3_def os_Create_def alloc_handle_def g2 f2)
  have rb: "entry_read L \<lparr>rc_handle = h2, rc_path = p, rc_index = length bpre\<rparr> w3 = Inr (zdata be)"
    using f zp nr be(1) pn
    by (intro entry_read_ok [where bs = bs and post = bpost]) (simp_all add: f3 g3)
  have cp: "io_Copy L \<lparr>fd = next_handle w2, fname = ?n\<rparr>
              \<lparr>rc_handle = h2, rc_path = p, rc_index = length bpre\<rparr> w3 =
            (None, w3\<lparr>files := (files w3)(?n \<mapsto> zdata be)\<rparr>)"
    using nw by (simp add: io_Copy_def rb g3)
  show ?thesis by (simp add: unpack_unfold [OF z oe] js cr cp f3)
qed

lemma last_named:
  assumes "n \<in> zname ` set es"
  shows "\<exists>pre e post. es = pre @ e # post \<and> zname e = n \<and> n \<notin> zname ` set post"
proof -
  from assms have "\<exists>x\<in>set es. zname x = n" by auto
  from split_list_last_prop [OF this] show ?thesis by (metis imageE)
qed

text \<open>
  Claim C1. When the archive at \<open>p\<close> has a member named \<open>info.json\<close> whose content
  the decoder accepts, and a member named by the executable's path, and no call fails,
  \<open>unpack\<close> returns the decoded metadata with no error, and afterwards the file system
  is the one before the call with the file \<open>execPath + ".new"\<close> holding exactly the
  bytes of the binary member. With several members of one name the last one counts,
  which is what \<open>ie\<close> and \<open>be\<close> are. The archive itself is not at the staging path.
\<close>

theorem unpack_stages_binary:
  assumes f: "files w p = Some bs" and zp: "zip_parse L bs = Some es"
    and nf: "\<forall>c. \<not> faults w c"
    and i1: "es = ipre @ ie # ipost" and i2: "zname ie = ''info.json''"
    and i3: "''info.json'' \<notin> zname ` set ipost"
    and b1: "es = bpre @ be # bpost" and b2: "zname be = execPath u"
    and b3: "execPath u \<notin> zname ` set bpost"
    and ne: "execPath u \<noteq> ''info.json''"
    and jd: "json_decode L (zdata ie) = (info, None)"
    and pn: "p \<noteq> execPath u @ ''.new''"
  shows "fst (unpack L u p w) = (info, None) \<and>
         files (snd (unpack L u p w)) = (files w)(execPath u @ ''.new'' \<mapsto> zdata be)"
proof -
  from nf have nz: "\<not> faults w (SysZipOpen p)"
    and no: "\<forall>i. \<not> faults w (SysEntryOpen p i)"
    and nr: "\<forall>i. \<not> faults w (SysEntryRead p i)"
    and nc: "\<not> faults w (SysCreate (execPath u @ ''.new''))"
    and nw: "\<not> faults w (SysWrite (execPath u @ ''.new''))"
    by simp_all
  show ?thesis
    by (rule unpack_success [OF f zp nz no nr nc nw i1 i2 i3 b1 b2 b3 ne jd pn])
qed

lemmas scenario_defs =
  scenario_world_def scenario_libs_def scenario_updater_def scenario_archives_def
  scenario_exe_def scenario_json_def scenario_info_def info_entry_def binary_entry_def
  truncated_json_def truncated_entry_def

text \<open>The scenario: \<open>info.json\<close> and a binary member of 13 bytes.\<close>

theorem unpack_stages_binary_witness:
  "fst (unpack scenario_libs scenario_updater ''/tmp/archive.zip''
          (scenario_world ''zip:full'' (\<lambda>c. False))) = (scenario_info, None) \<and>
   files (snd (unpack scenario_libs scenario_updater ''/tmp/archive.zip''
          (scenario_world ''zip:full'' (\<lambda>c. False)))) ''/opt/svc/bin/svc.new'' =
     Some ''ELF svc 1.2.3''"
  using unpack_stages_binary [of "scenario_world ''zip:full'' (\<lambda>c. False)"
      "''/tmp/archive.zip''" "''zip:full''" scenario_libs "[info_entry, binary_entry]"
      "[]" info_entry "[binary_entry]" "[info_entry]" binary_entry "[]"
      scenario_updater scenario_info]
  by (simp add: scenario_defs)

text \<open>
  Claim C7. When the archive has no member named \<open>info.json\<close>, or none named by the
  executable's path, \<open>unpack\<close> leaves the file system as it was: no staged file is
  created or changed. It returns an error: the missing-entry error, or the error of
  opening the archive or one of its members; when those opens do not fail, it is the
  missing-entry error, with the zero metadata.
\<close>

theorem unpack_missing_entry_no_output:
  assumes f: "files w p = Some bs" and zp: "zip_parse L bs = Some es"
    and miss: "''info.json'' \<notin> zname ` set es \<or> execPath u \<notin> zname ` set es"
  shows "files (snd (unpack L u p w)) = files w \<and>
         (\<exists>e. fst (unpack L u p w) = (zero_Info, Some e) \<and>
              (e = MissingEntry \<or> e = ZipOpenErr p \<or> (\<exists>i. e = EntryOpenErr p i))) \<and>
         (\<not> faults w (SysZipOpen p) \<and> (\<forall>i. \<not> faults w (SysEntryOpen p i)) \<longrightarrow>
            fst (unpack L u p w) = (zero_Info, Some MissingEntry))"
proof (cases "faults w (SysZipOpen p)")
  case True
  then have "unpack L u p w = ((zero_Info, Some (ZipOpenErr p)), w)"
    by (simp add: unpack_def zip_OpenReader_def)
  with True show ?thesis by simp
next
  case False
  from zip_OpenReader_ok [OF f zp False] obtain r w1 where
    z: "zip_OpenReader L p w = (Inr r, w1)" and rf: "zr_File r = map zname es"
    by simp
  from miss have "''info.json'' \<notin> set (zr_File r) \<or> execPath u \<notin> set (zr_File r) \<or>
                  execPath u = ''info.json''"
    by (auto simp add: rf)
  from unpack_missing_files [OF this z] show ?thesis by auto
qed

text \<open>The definitions a concrete run of \<open>unpack\<close> unfolds.\<close>

lemmas eval_defs =
  unpack_def zip_OpenReader_def entry_Open_def entry_read_def json_Decode_def io_Copy_def
  os_Create_def alloc_handle_def close_handle_def zero_Info_def

theorem unpack_missing_entry_no_output_witness:
  "files (snd (unpack scenario_libs scenario_updater ''/tmp/archive.zip''
          (scenario_world ''zip:no-info'' (\<lambda>c. False)))) =
     files (scenario_world ''zip:no-info'' (\<lambda>c. False)) \<and>
   fst (unpack scenario_libs scenario_updater ''/tmp/archive.zip''
          (scenario_world ''zip:no-info'' (\<lambda>c. False))) = (zero_Info, Some MissingEntry) \<and>
   files (snd (unpack scenario_libs scenario_updater ''/tmp/archive.zip''
          (scenario_world ''zip:no-info'' (\<lambda>c. False)))) ''/opt/svc/bin/svc.new'' = None"
  using unpack_missing_entry_no_output [of "scenario_world ''zip:no-info'' (\<lambda>c. False)"
      "''/tmp/archive.zip''" "''zip:no-info''" scenario_libs "[binary_entry]" scenario_updater]
  by (simp add: scenario_defs)

text \<open>
  Claim C2. For an archive that opens, when no call fails: \<open>unpack\<close> returns the
  missing-entry error when no member is named \<open>info.json\<close>, and when no member is
  named by the executable's path; it returns the decoder's error, wrapped as
  \<open>DecodeErr\<close> and so a value other than the missing-entry error, when both members are
  there and the decoder rejects the content of the metadata member; and every error it
  returns is one of these two, for one of these causes. What the decoder rejects is the
  decoder's matter: it is a parameter here.
\<close>

theorem unpack_failures:
  assumes f: "files w p = Some bs" and zp: "zip_parse L bs = Some es"
    and nf: "\<forall>c. \<not> faults w c"
    and pn: "p \<noteq> execPath u @ ''.new''"
  shows "(''info.json'' \<notin> zname ` set es \<or> execPath u \<notin> zname ` set es \<longrightarrow>
            fst (unpack L u p w) = (zero_Info, Some MissingEntry)) \<and>
         (\<forall>ipre ie ipost info j.
            es = ipre @ ie # ipost \<and> zname ie = ''info.json'' \<and>
            ''info.json'' \<notin> zname ` set ipost \<and>
            execPath u \<in> zname ` set es \<and> execPath u \<noteq> ''info.json'' \<and>
            json_decode L (zdata ie) = (info, Some j) \<longrightarrow>
            fst (unpack L u p w) = (info, Some (DecodeErr j)) \<and> DecodeErr j \<noteq> MissingEntry) \<and>
         (\<forall>e. snd (fst (unpack L u p w)) = Some e \<longrightarrow>
            e = MissingEntry \<and>
              (''info.json'' \<notin> zname ` set es \<or> execPath u \<notin> zname ` set es \<or>
               execPath u = ''info.json'') \<or>
            (\<exists>ie j. ie \<in> set es \<and> zname ie = ''info.json'' \<and>
               snd (json_decode L (zdata ie)) = Some j \<and> e = DecodeErr j))"
proof -
  from nf have nz: "\<not> faults w (SysZipOpen p)"
    and no: "\<forall>i. \<not> faults w (SysEntryOpen p i)"
    and nr: "\<forall>i. \<not> faults w (SysEntryRead p i)"
    and nc: "\<not> faults w (SysCreate (execPath u @ ''.new''))"
    and nw: "\<not> faults w (SysWrite (execPath u @ ''.new''))"
    by simp_all
  from zip_OpenReader_ok [OF f zp nz] obtain r w1 where
    z: "zip_OpenReader L p w = (Inr r, w1)" and rf: "zr_File r = map zname es"
    by simp
  have miss: "fst (unpack L u p w) = (zero_Info, Some MissingEntry)"
    if "''info.json'' \<notin> zname ` set es \<or> execPath u \<notin> zname ` set es \<or>
        execPath u = ''info.json''"
  proof -
    from that have "''info.json'' \<notin> set (zr_File r) \<or> execPath u \<notin> set (zr_File r) \<or>
                    execPath u = ''info.json''"
      by (auto simp add: rf)
    from unpack_missing_files [OF this z] no show ?thesis by blast
  qed
  have dec: "fst (unpack L u p w) = (info, Some (DecodeErr j))"
    if "es = ipre @ ie # ipost" "zname ie = ''info.json''"
       "''info.json'' \<notin> zname ` set ipost"
       "execPath u \<in> zname ` set es" "execPath u \<noteq> ''info.json''"
       "json_decode L (zdata ie) = (info, Some j)"
    for ipre ie ipost info j
  proof -
    from last_named [OF that(4)] obtain bpre be bpost where
      b: "es = bpre @ be # bpost" "zname be = execPath u" "execPath u \<notin> zname ` set bpost"
      by blast
    show ?thesis
      by (rule unpack_decode_error [OF f zp nz no nr that(1,2,3) b that(5,6)])
  qed
  have only: "e = MissingEntry \<and>
              (''info.json'' \<notin> zname ` set es \<or> execPath u \<notin> zname ` set es \<or>
               execPath u = ''info.json'') \<or>
            (\<exists>ie j. ie \<in> set es \<and> zname ie = ''info.json'' \<and>
               snd (json_decode L (zdata ie)) = Some j \<and> e = DecodeErr j)"
    if e: "snd (fst (unpack L u p w)) = Some e" for e
  proof (cases "''info.json'' \<notin> zname ` set es \<or> execPath u \<notin> zname ` set es \<or>
                execPath u = ''info.json''")
    case True
    with miss [OF True] e show ?thesis by simp
  next
    case False
    then have pi: "''info.json'' \<in> zname ` set es" and pb: "execPath u \<in> zname ` set es"
      and ne: "execPath u \<noteq> ''info.json''" by auto
    from last_named [OF pi] obtain ipre ie ipost where
      i: "es = ipre @ ie # ipost" "zname ie = ''info.json''"
         "''info.json'' \<notin> zname ` set ipost"
      by blast
    from last_named [OF pb] obtain bpre be bpost where
      b: "es = bpre @ be # bpost" "zname be = execPath u" "execPath u \<notin> zname ` set bpost"
      by blast
    obtain info je where jd: "json_decode L (zdata ie) = (info, je)"
      by (cases "json_decode L (zdata ie)")
    show ?thesis
    proof (cases je)
      case None
      from unpack_success [OF f zp nz no nr nc nw i b ne jd [unfolded None] pn] e
      show ?thesis by simp
    next
      case (Some j)
      from unpack_decode_error [OF f zp nz no nr i b ne jd [unfolded Some]] e
      have "e = DecodeErr j" by simp
      moreover have "ie \<in> set es" using i(1) by simp
      ultimately show ?thesis using i(2) jd Some by auto
    qed
  qed
  show ?thesis using miss dec only by blast
qed


theorem unpack_failures_witness:
  "fst (unpack scenario_libs scenario_updater ''/tmp/archive.zip''
          (scenario_world ''zip:no-info'' (\<lambda>c. False))) = (zero_Info, Some MissingEntry) \<and>
   fst (unpack scenario_libs scenario_updater ''/tmp/archive.zip''
          (scenario_world ''zip:no-binary'' (\<lambda>c. False))) = (zero_Info, Some MissingEntry) \<and>
   fst (unpack scenario_libs scenario_updater ''/tmp/archive.zip''
          (scenario_world ''zip:bad-json'' (\<lambda>c. False))) =
     (zero_Info, Some (DecodeErr ''unexpected end of JSON input''))"
proof -
  have a: "fst (unpack scenario_libs scenario_updater ''/tmp/archive.zip''
          (scenario_world ''zip:no-info'' (\<lambda>c. False))) = (zero_Info, Some MissingEntry)"
    using unpack_failures [of "scenario_world ''zip:no-info'' (\<lambda>c. False)"
      "''/tmp/archive.zip''" "''zip:no-info''" scenario_libs "[binary_entry]" scenario_updater]
    by (simp add: scenario_defs)
  have b: "fst (unpack scenario_libs scenario_updater ''/tmp/archive.zip''
          (scenario_world ''zip:no-binary'' (\<lambda>c. False))) = (zero_Info, Some MissingEntry)"
    using unpack_failures [of "scenario_world ''zip:no-binary'' (\<lambda>c. False)"
      "''/tmp/archive.zip''" "''zip:no-binary''" scenario_libs "[info_entry]" scenario_updater]
    by (simp add: scenario_defs)
  have "files (scenario_world ''zip:bad-json'' (\<lambda>c. False)) ''/tmp/archive.zip'' =
          Some ''zip:bad-json''"
    and "zip_parse scenario_libs ''zip:bad-json'' =
          Some [truncated_entry, binary_entry]"
    and "\<forall>c. \<not> faults (scenario_world ''zip:bad-json'' (\<lambda>c. False)) c"
    and "''/tmp/archive.zip'' \<noteq> execPath scenario_updater @ ''.new''"
    by (simp_all add: scenario_defs)
  from unpack_failures [OF this, THEN conjunct2, THEN conjunct1,
      rule_format, of "[]" "truncated_entry" "[binary_entry]"
      zero_Info "''unexpected end of JSON input''"]
  have c: "fst (unpack scenario_libs scenario_updater ''/tmp/archive.zip''
          (scenario_world ''zip:bad-json'' (\<lambda>c. False))) =
     (zero_Info, Some (DecodeErr ''unexpected end of JSON input''))"
    by (simp add: scenario_defs)
  from a b c show ?thesis by simp
qed

text \<open>
  Claim C9. \<open>NewUpdater\<close> records as \<open>execPath\<close> the path the system reports for the
  running executable. \<open>unpack\<close> takes as binary member the (last) member whose name is
  that path: an archive with no member of that name yields the missing-entry error,
  whatever else it holds, and on a successful run the staged file has the bytes of that
  member.
\<close>

theorem unpack_binary_keyed_by_execPath:
  assumes nu: "NewUpdater up iv w0 = Inr u"
    and f: "files w p = Some bs" and zp: "zip_parse L bs = Some es"
    and nf: "\<forall>c. \<not> faults w c"
  shows "exe_link w0 = Some (execPath u) \<and>
         (execPath u \<notin> zname ` set es \<longrightarrow>
            fst (unpack L u p w) = (zero_Info, Some MissingEntry)) \<and>
         (\<forall>ipre ie ipost bpre be bpost info.
            es = ipre @ ie # ipost \<and> zname ie = ''info.json'' \<and>
            ''info.json'' \<notin> zname ` set ipost \<and>
            es = bpre @ be # bpost \<and> zname be = execPath u \<and>
            execPath u \<notin> zname ` set bpost \<and> execPath u \<noteq> ''info.json'' \<and>
            json_decode L (zdata ie) = (info, None) \<and> p \<noteq> execPath u @ ''.new'' \<longrightarrow>
            files (snd (unpack L u p w)) (execPath u @ ''.new'') = Some (zdata be))"
proof -
  from nf have nz: "\<not> faults w (SysZipOpen p)"
    and no: "\<forall>i. \<not> faults w (SysEntryOpen p i)"
    and nr: "\<forall>i. \<not> faults w (SysEntryRead p i)"
    and nc: "\<not> faults w (SysCreate (execPath u @ ''.new''))"
    and nw: "\<not> faults w (SysWrite (execPath u @ ''.new''))"
    by simp_all
  have ex: "exe_link w0 = Some (execPath u)"
    using nu by (auto simp add: NewUpdater_def os_Executable_def split: if_splits option.splits)
  from zip_OpenReader_ok [OF f zp nz] obtain r w1 where
    z: "zip_OpenReader L p w = (Inr r, w1)" and rf: "zr_File r = map zname es"
    by simp
  have miss: "fst (unpack L u p w) = (zero_Info, Some MissingEntry)"
    if "execPath u \<notin> zname ` set es"
  proof -
    from that have "''info.json'' \<notin> set (zr_File r) \<or> execPath u \<notin> set (zr_File r) \<or>
                    execPath u = ''info.json''"
      by (auto simp add: rf)
    from unpack_missing_files [OF this z] no show ?thesis by blast
  qed
  have pick: "files (snd (unpack L u p w)) (execPath u @ ''.new'') = Some (zdata be)"
    if "es = ipre @ ie # ipost" "zname ie = ''info.json''"
       "''info.json'' \<notin> zname ` set ipost"
       "es = bpre @ be # bpost" "zname be = execPath u"
       "execPath u \<notin> zname ` set bpost" "execPath u \<noteq> ''info.json''"
       "json_decode L (zdata ie) = (info, None)" "p \<noteq> execPath u @ ''.new''"
    for ipre ie ipost bpre be bpost info
    using unpack_success [OF f zp nz no nr nc nw that] by simp
  show ?thesis using ex miss pick by blast
qed

theorem unpack_binary_keyed_by_execPath_witness:
  "NewUpdater ''http://upstream/svc.zip'' 60000000000 (scenario_world ''zip:relative'' (\<lambda>c. False)) =
     Inr scenario_updater \<and>
   execPath scenario_updater = ''/opt/svc/bin/svc'' \<and>
   fst (unpack scenario_libs scenario_updater ''/tmp/archive.zip''
          (scenario_world ''zip:relative'' (\<lambda>c. False))) = (zero_Info, Some MissingEntry)"
proof -
  have n: "NewUpdater ''http://upstream/svc.zip'' 60000000000
             (scenario_world ''zip:relative'' (\<lambda>c. False)) = Inr scenario_updater"
    by (simp add: NewUpdater_def os_Executable_def scenario_defs)
  have "files (scenario_world ''zip:relative'' (\<lambda>c. False)) ''/tmp/archive.zip'' =
          Some ''zip:relative''"
    and "zip_parse scenario_libs ''zip:relative'' =
          Some [info_entry, \<lparr>zname = ''svc'', zdata = ''ELF svc 1.2.3''\<rparr>]"
    and "\<forall>c. \<not> faults (scenario_world ''zip:relative'' (\<lambda>c. False)) c"
    by (simp_all add: scenario_defs)
  from unpack_binary_keyed_by_execPath [OF n this]
  show ?thesis using n by (simp add: scenario_defs)
qed

theorem unpack_no_staged_file_on_early_error_witness:
  "snd (fst (unpack scenario_libs scenario_updater ''/tmp/archive.zip''
          (scenario_world ''zip:bad-json'' (\<lambda>c. False)))) =
     Some (DecodeErr ''unexpected end of JSON input'') \<and>
   files (snd (unpack scenario_libs scenario_updater ''/tmp/archive.zip''
          (scenario_world ''zip:bad-json'' (\<lambda>c. False)))) =
     files (scenario_world ''zip:bad-json'' (\<lambda>c. False)) \<and>
   files (scenario_world ''zip:bad-json'' (\<lambda>c. False)) ''/opt/svc/bin/svc.new'' = None"
proof -
  have e: "snd (fst (unpack scenario_libs scenario_updater ''/tmp/archive.zip''
          (scenario_world ''zip:bad-json'' (\<lambda>c. False)))) =
     Some (DecodeErr ''unexpected end of JSON input'')"
    by (simp add: eval_defs scenario_defs)
  from unpack_no_staged_file_on_early_error [of scenario_libs scenario_updater "''/tmp/archive.zip''"
      "scenario_world ''zip:bad-json'' (\<lambda>c. False)"] e
  show ?thesis by (simp add: scenario_defs)
qed

subsection \<open>Handles, restart, and the archive of a broken download\<close>

text \<open>
  Claim C8 says that every entry reader \<open>unpack\<close> opens is released before it returns.
  The code does not do that. The loop opens a reader for every member; the two
  \<open>defer\<close> statements of lines 150 and 151 close the two readers the variables hold at
  that point, and only when that point is reached. In the scenario, with no handle open
  before the call: for the archive without binary member the reader of \<open>info.json\<close>
  (handle 4) is still open after \<open>unpack\<close> has returned the missing-entry error; for the
  archive with a \<open>README\<close> the run succeeds and the reader of \<open>README\<close> (handle 4)
  is still open. The archive's own handle (3) is closed in both.
\<close>

theorem unpack_leaks_entry_readers:
  "open_handles (scenario_world ''zip:no-binary'' (\<lambda>c. False)) = [] \<and>
   unpack scenario_libs scenario_updater ''/tmp/archive.zip''
     (scenario_world ''zip:no-binary'' (\<lambda>c. False)) =
     ((zero_Info, Some MissingEntry),
      (scenario_world ''zip:no-binary'' (\<lambda>c. False))\<lparr>open_handles := [4], next_handle := 5\<rparr>) \<and>
   fst (unpack scenario_libs scenario_updater ''/tmp/archive.zip''
     (scenario_world ''zip:readme'' (\<lambda>c. False))) = (scenario_info, None) \<and>
   open_handles (snd (unpack scenario_libs scenario_updater ''/tmp/archive.zip''
     (scenario_world ''zip:readme'' (\<lambda>c. False)))) = [4]"
  by (simp add: eval_defs scenario_defs)

lemma os_Rename_fail:
  "fst (os_Rename src dst w) = Some e \<Longrightarrow> os_Rename src dst w = (Some e, w)"
  by (auto simp add: os_Rename_def split: if_splits option.splits)

text \<open>
  Claim C5. When the rename of the executable to \<open>execPath + ".old"\<close> fails,
  \<open>RestartAndUpdate\<close> returns that error and the world is the one before the call:
  no file is created, renamed or removed, no process is started and none is killed.
\<close>

theorem RestartAndUpdate_rename_fails:
  "fst (os_Rename (execPath u) (execPath u @ ''.old'') w) = Some e \<Longrightarrow>
   RestartAndUpdate L u w = (Some e, w)"
  by (simp add: RestartAndUpdate_def os_Rename_fail)

theorem RestartAndUpdate_rename_fails_witness:
  "RestartAndUpdate scenario_libs scenario_updater
     (scenario_world ''zip:full'' (\<lambda>c. c = SysRename ''/opt/svc/bin/svc'' ''/opt/svc/bin/svc.old'')) =
   (Some (RenameErr ''/opt/svc/bin/svc'' ''/opt/svc/bin/svc.old''),
    scenario_world ''zip:full'' (\<lambda>c. c = SysRename ''/opt/svc/bin/svc'' ''/opt/svc/bin/svc.old''))"
  using RestartAndUpdate_rename_fails [of scenario_updater
      "scenario_world ''zip:full'' (\<lambda>c. c = SysRename ''/opt/svc/bin/svc'' ''/opt/svc/bin/svc.old'')"
      "RenameErr ''/opt/svc/bin/svc'' ''/opt/svc/bin/svc.old''" scenario_libs]
  by (simp add: os_Rename_def scenario_defs)

text \<open>
  Claim C6 describes the successful run of \<open>RestartAndUpdate\<close>: rename, then a new
  process started from the original path, then the end of the current one. The code
  makes these calls in this order, but it starts the new process from the path it has
  just renamed away: a successful rename leaves no file under the old name, and a
  process cannot be started from a name with no file. So in every world
  \<open>RestartAndUpdate\<close> returns an error, and the processes are those before the call.
\<close>

theorem RestartAndUpdate_never_succeeds:
  "fst (RestartAndUpdate L u w) \<noteq> None \<and> procs (snd (RestartAndUpdate L u w)) = procs w"
proof (cases "os_Rename (execPath u) (execPath u @ ''.old'') w")
  case (Pair r w1)
  show ?thesis
  proof (cases r)
    case (Some e)
    with Pair have "w1 = w" using os_Rename_fail [of "execPath u" "execPath u @ ''.old''" w e]
      by simp
    with Pair Some show ?thesis by (simp add: RestartAndUpdate_def)
  next
    case None
    with Pair have "files w1 (execPath u) = None" and "procs w1 = procs w"
      by (auto simp add: os_Rename_def split: if_splits option.splits)
    with Pair None show ?thesis by (simp add: RestartAndUpdate_def os_StartProcess_def)
  qed
qed

text \<open>
  In the scenario the rename succeeds, the start fails, and the service is left with its
  executable at \<open>/opt/svc/bin/svc.old\<close> and nothing at \<open>/opt/svc/bin/svc\<close>.
\<close>

theorem RestartAndUpdate_never_succeeds_scenario:
  "RestartAndUpdate scenario_libs scenario_updater (scenario_world ''zip:full'' (\<lambda>c. False)) =
     (Some (SpawnErr ''/opt/svc/bin/svc''),
      (scenario_world ''zip:full'' (\<lambda>c. False))
        \<lparr>files := [''/tmp/archive.zip'' \<mapsto> ''zip:full'',
                   ''/opt/svc/bin/svc.old'' \<mapsto> ''ELF svc 1.0.0'']\<rparr>)"
  using RestartAndUpdate_never_succeeds [of scenario_libs scenario_updater
      "scenario_world ''zip:full'' (\<lambda>c. False)"]
  by (auto simp add: RestartAndUpdate_def os_Rename_def os_StartProcess_def scenario_defs)

lemma temp_try_free:
  "0 < n \<Longrightarrow> files w (tmp_names w k) = None \<Longrightarrow> temp_try n k w = Some k"
  by (cases n) simp_all

lemmas fetch_defs =
  update_def fetch_def http_Get_def ioutil_TempFile_def io_Copy_body_def os_Remove_def
  temp_try_free

text \<open>
  Claim C3 says that no temporary archive is left when a cycle ends, however it ends. When
  the copy of the response body fails, \<open>fetch\<close> has created the temporary file and
  returns its name with the error; \<open>update\<close> returns on the error before it reaches
  \<open>defer os.Remove(archivePath)\<close>. In the scenario, with the body read failing:
  \<open>/tmp/7\<close> does not exist before the cycle, the cycle returns the read error, and
  \<open>/tmp/7\<close> exists after it.
\<close>

theorem update_leaks_archive_on_broken_download:
  "files (scenario_world ''zip:full'' (\<lambda>c. c = SysBodyRead ''http://upstream/svc.zip''))
     ''/tmp/7'' = None \<and>
   fst (update scenario_libs scenario_updater
     (scenario_world ''zip:full'' (\<lambda>c. c = SysBodyRead ''http://upstream/svc.zip''))) =
     (zero_Info, Some (BodyReadErr ''http://upstream/svc.zip'')) \<and>
   files (snd (update scenario_libs scenario_updater
     (scenario_world ''zip:full'' (\<lambda>c. c = SysBodyRead ''http://upstream/svc.zip''))))
     ''/tmp/7'' = Some []"
  by (simp add: fetch_defs eval_defs scenario_defs)

text \<open>The cycle of the scenario when nothing fails.\<close>

lemma update_scenario_ok:
  "fst (update scenario_libs scenario_updater (scenario_world ''zip:full'' (\<lambda>c. False))) =
     (scenario_info, None) \<and>
   files (snd (update scenario_libs scenario_updater (scenario_world ''zip:full'' (\<lambda>c. False)))) =
     [''/tmp/archive.zip'' \<mapsto> ''zip:full'', ''/opt/svc/bin/svc'' \<mapsto> ''ELF svc 1.0.0'',
      ''/opt/svc/bin/svc.new'' \<mapsto> ''ELF svc 1.2.3'']"
  by (simp add: fetch_defs eval_defs scenario_defs fun_upd_twist)

subsection \<open>The polling loop\<close>

lemma run_cycles_Suc_fst:
  "fst (run_cycles L u (Suc n) w) =
     fst (update L u w) # fst (run_cycles L u n (snd (update L u w)))"
  by (simp split: prod.splits)

lemma run_cycles_Suc_snd:
  "snd (run_cycles L u (Suc n) w) = snd (run_cycles L u n (snd (update L u w)))"
  by (simp split: prod.splits)

lemma poll_loop_failed_cycle:
  "update L u w = ((info, Some e), w1) \<Longrightarrow>
   poll_loop L u (TickerC rcv # cs) w = poll_loop L u cs w1"
  by simp

lemma poll_loop_sent:
  "update L u w = ((info, None), w1) \<Longrightarrow>
   poll_loop L u (TickerC True # cs) w =
     (info # fst (poll_loop L u cs w1), snd (poll_loop L u cs w1))"
  by (simp split: prod.splits)

lemma poll_loop_blocked:
  "update L u w = ((info, None), w1) \<Longrightarrow>
   poll_loop L u (TickerC False # cs) w = ([], BlockedOnSend info, w1)"
  by simp

lemma poll_loop_cycles:
  "\<exists>n. n \<le> length (filter is_tick cs) \<and>
       snd (snd (poll_loop L u cs w)) = snd (run_cycles L u n w) \<and>
       emitted (fst (run_cycles L u n w)) =
         fst (poll_loop L u cs w) @
           (case fst (snd (poll_loop L u cs w)) of BlockedOnSend i \<Rightarrow> [i] | _ \<Rightarrow> [])"
proof (induction cs arbitrary: w)
  case Nil
  have "snd (snd (poll_loop L u [] w)) = snd (run_cycles L u 0 w) \<and>
        emitted (fst (run_cycles L u 0 w)) =
          fst (poll_loop L u [] w) @
            (case fst (snd (poll_loop L u [] w)) of BlockedOnSend i \<Rightarrow> [i] | _ \<Rightarrow> [])"
    by (simp add: emitted_def)
  then show ?case by blast
next
  case (Cons c cs)
  show ?case
  proof (cases c)
    case CtxDone
    have "snd (snd (poll_loop L u (c # cs) w)) = snd (run_cycles L u 0 w) \<and>
          emitted (fst (run_cycles L u 0 w)) =
            fst (poll_loop L u (c # cs) w) @
              (case fst (snd (poll_loop L u (c # cs) w)) of BlockedOnSend i \<Rightarrow> [i] | _ \<Rightarrow> [])"
      by (simp add: CtxDone emitted_def)
    then show ?thesis by blast
  next
    case (TickerC rcv)
    obtain info e w1 where up: "update L u w = ((info, e), w1)"
      by (metis surj_pair)
    from Cons.IH [of w1] obtain n where
      n: "n \<le> length (filter is_tick cs)"
         "snd (snd (poll_loop L u cs w1)) = snd (run_cycles L u n w1)"
         "emitted (fst (run_cycles L u n w1)) =
            fst (poll_loop L u cs w1) @
              (case fst (snd (poll_loop L u cs w1)) of BlockedOnSend i \<Rightarrow> [i] | _ \<Rightarrow> [])"
      by blast
    show ?thesis
    proof (cases "e = None \<and> \<not> rcv")
      case True
      have "Suc 0 \<le> length (filter is_tick (c # cs)) \<and>
            snd (snd (poll_loop L u (c # cs) w)) = snd (run_cycles L u (Suc 0) w) \<and>
            emitted (fst (run_cycles L u (Suc 0) w)) =
              fst (poll_loop L u (c # cs) w) @
                (case fst (snd (poll_loop L u (c # cs) w)) of BlockedOnSend i \<Rightarrow> [i] | _ \<Rightarrow> [])"
        using True
        by (simp add: TickerC poll_loop_blocked [OF up [unfolded conjunct1 [OF True]]]
            run_cycles_Suc_fst run_cycles_Suc_snd up emitted_def
              del: run_cycles.simps(2) poll_loop.simps(3))
      then show ?thesis by blast
    next
      case False
      have "Suc n \<le> length (filter is_tick (c # cs)) \<and>
            snd (snd (poll_loop L u (c # cs) w)) = snd (run_cycles L u (Suc n) w) \<and>
            emitted (fst (run_cycles L u (Suc n) w)) =
              fst (poll_loop L u (c # cs) w) @
                (case fst (snd (poll_loop L u (c # cs) w)) of BlockedOnSend i \<Rightarrow> [i] | _ \<Rightarrow> [])"
      proof (cases e)
        case (Some err)
        then show ?thesis
          using n
          by (simp add: TickerC poll_loop_failed_cycle [OF up [unfolded Some]]
              run_cycles_Suc_fst run_cycles_Suc_snd up emitted_def
              del: run_cycles.simps(2) poll_loop.simps(3))
      next
        case None
        with False have rcv by simp
        with None show ?thesis
          using n
          by (simp add: TickerC poll_loop_sent [OF up [unfolded None]]
              run_cycles_Suc_fst run_cycles_Suc_snd up emitted_def
              del: run_cycles.simps(2) poll_loop.simps(3))
      qed
      then show ?thesis by blast
    qed
  qed
qed

lemma poll_loop_cancel:
  "poll_loop L u (cs1 @ CtxDone # cs2) w = poll_loop L u (cs1 @ [CtxDone]) w"
proof (induction cs1 arbitrary: w)
  case Nil
  show ?case by simp
next
  case (Cons c cs1)
  show ?case
  proof (cases c)
    case CtxDone
    then show ?thesis by simp
  next
    case (TickerC rcv)
    then show ?thesis by (simp add: Cons.IH split: prod.splits option.splits)
  qed
qed

lemma poll_loop_at_select:
  "fst (snd (poll_loop L u cs w)) = AtSelect \<Longrightarrow> CtxDone \<notin> set cs"
proof (induction cs arbitrary: w)
  case Nil
  show ?case by simp
next
  case (Cons c cs)
  show ?case
  proof (cases c)
    case CtxDone
    with Cons.prems show ?thesis by simp
  next
    case (TickerC rcv)
    obtain info e w1 where up: "update L u w = ((info, e), w1)"
      by (metis surj_pair)
    have "fst (snd (poll_loop L u cs w1)) = AtSelect"
    proof (cases e)
      case (Some err)
      with Cons.prems show ?thesis
        by (simp only: TickerC poll_loop_failed_cycle [OF up [unfolded Some]])
    next
      case None
      show ?thesis
      proof (cases rcv)
        case True
        with Cons.prems show ?thesis
          by (simp only: TickerC poll_loop_sent [OF up [unfolded None]] snd_conv)
      next
        case False
        with Cons.prems show ?thesis
          by (simp add: TickerC poll_loop_blocked [OF up [unfolded None]]
              del: poll_loop.simps(3))
      qed
    qed
    with Cons.IH TickerC show ?thesis by auto
  qed
qed

lemma length_emitted: "length (emitted rs) \<le> length rs"
  by (simp add: emitted_def)

lemma length_run_cycles: "length (fst (run_cycles L u n w)) = n"
  by (induction n arbitrary: w)
     (simp_all add: run_cycles_Suc_fst del: run_cycles.simps(2))

text \<open>
  Claim C4. Let \<open>StartUpdater\<close> run on the choices \<open>cs\<close>, with \<open>out\<close> the values
  received from the channel, \<open>st\<close> where the goroutine ends up and \<open>w'\<close> the world it
  leaves. Then: \<open>out\<close> has at most one value for each time the ticker case was chosen;
  there is a number \<open>n\<close> of cycles, at most the number of ticker choices, such that
  \<open>w'\<close> is the world after \<open>n\<close> complete calls of \<open>update\<close> in sequence (no cycle
  is cut short), and the values of the cycles that returned no error, in the order of the
  cycles, are exactly \<open>out\<close>, followed by the value the goroutine is still
  trying to send if it is blocked in a send; a loop that still waits in \<open>select\<close>
  has not seen the cancellation; and once the cancellation case is chosen, whatever
  choices follow change nothing: no further value, no further cycle.
\<close>

theorem StartUpdater_emissions:
  assumes s: "StartUpdater L u cs w = Some (out, st, w')"
  shows "length out \<le> length (filter is_tick cs) \<and>
         (\<exists>n. n \<le> length (filter is_tick cs) \<and> w' = snd (run_cycles L u n w) \<and>
              emitted (fst (run_cycles L u n w)) =
                out @ (case st of BlockedOnSend i \<Rightarrow> [i] | _ \<Rightarrow> [])) \<and>
         (st = AtSelect \<longrightarrow> CtxDone \<notin> set cs) \<and>
         (\<forall>cs1 cs2. cs = cs1 @ CtxDone # cs2 \<longrightarrow>
              StartUpdater L u (cs1 @ [CtxDone]) w = Some (out, st, w'))"
proof -
  from s have iv: "\<not> interval u \<le> 0" and p: "poll_loop L u cs w = (out, st, w')"
    by (auto simp add: StartUpdater_def split: if_splits)
  from poll_loop_cycles [of cs L u w] obtain n where
    n: "n \<le> length (filter is_tick cs)" "w' = snd (run_cycles L u n w)"
       "emitted (fst (run_cycles L u n w)) =
          out @ (case st of BlockedOnSend i \<Rightarrow> [i] | _ \<Rightarrow> [])"
    by (auto simp add: p)
  have "length out \<le> length (emitted (fst (run_cycles L u n w)))"
    by (simp add: n(3))
  also have "\<dots> \<le> n" using length_emitted [of "fst (run_cycles L u n w)"]
    by (simp add: length_run_cycles)
  finally have a: "length out \<le> length (filter is_tick cs)" using n(1) by simp
  have c: "st = AtSelect \<longrightarrow> CtxDone \<notin> set cs"
    using poll_loop_at_select [of L u cs w] by (simp add: p)
  have d: "\<forall>cs1 cs2. cs = cs1 @ CtxDone # cs2 \<longrightarrow>
              StartUpdater L u (cs1 @ [CtxDone]) w = Some (out, st, w')"
  proof (intro allI impI)
    fix cs1 cs2
    assume "cs = cs1 @ CtxDone # cs2"
    with poll_loop_cancel [of L u cs1 cs2 w] p
    have "poll_loop L u (cs1 @ [CtxDone]) w = (out, st, w')" by simp
    with iv show "StartUpdater L u (cs1 @ [CtxDone]) w = Some (out, st, w')"
      by (simp add: StartUpdater_def)
  qed
  from a n c d show ?thesis by blast
qed


text \<open>
  In the scenario with the write to the first temporary file failing: the first cycle
  fails, the second succeeds, then the cancellation is seen and the last tick is never
  served. One value is received.
\<close>

theorem StartUpdater_emissions_witness:
  "map_option (\<lambda>r. (fst r, fst (snd r)))
     (StartUpdater scenario_libs scenario_updater
        [TickerC True, TickerC True, CtxDone, TickerC True]
        (scenario_world ''zip:full'' (\<lambda>c. c = SysWrite ''/tmp/7''))) =
     Some ([scenario_info], Exited) \<and>
   (\<exists>n. n \<le> 3 \<and>
      emitted (fst (run_cycles scenario_libs scenario_updater n
        (scenario_world ''zip:full'' (\<lambda>c. c = SysWrite ''/tmp/7'')))) = [scenario_info])"
proof -
  let ?w = "scenario_world ''zip:full'' (\<lambda>c. c = SysWrite ''/tmp/7'')"
  let ?cs = "[TickerC True, TickerC True, CtxDone, TickerC True]"
  have c1: "snd (fst (update scenario_libs scenario_updater ?w)) = Some (WriteErr ''/tmp/7'')"
    by (simp add: fetch_defs eval_defs scenario_defs)
  define w1 where "w1 = snd (update scenario_libs scenario_updater ?w)"
  have w1: "files w1 = [''/tmp/archive.zip'' \<mapsto> ''zip:full'',
                        ''/opt/svc/bin/svc'' \<mapsto> ''ELF svc 1.0.0'', ''/tmp/7'' \<mapsto> []]"
    "tmp_next w1 = 1" "tmp_names w1 = (\<lambda>n. ''/tmp/'' @ replicate (Suc n) (CHR ''7''))"
    "faults w1 = (\<lambda>c. c = SysWrite ''/tmp/7'')"
    "net w1 = [''http://upstream/svc.zip'' \<mapsto> ''zip:full'']"
    by (simp_all add: w1_def fetch_defs eval_defs scenario_defs fun_upd_twist)
  have c2: "fst (update scenario_libs scenario_updater w1) = (scenario_info, None)"
    by (simp add: fetch_defs eval_defs w1 scenario_defs)
  have p: "poll_loop scenario_libs scenario_updater ?cs ?w =
             ([scenario_info], Exited, snd (update scenario_libs scenario_updater w1))"
  proof -
    have u1: "update scenario_libs scenario_updater ?w =
                ((fst (fst (update scenario_libs scenario_updater ?w)),
                  Some (WriteErr ''/tmp/7'')), w1)"
      using c1 by (simp add: w1_def prod_eq_iff)
    have u2: "update scenario_libs scenario_updater w1 =
                ((scenario_info, None), snd (update scenario_libs scenario_updater w1))"
      using c2 by (simp add: prod_eq_iff)
    show ?thesis
      by (simp add: poll_loop_failed_cycle [OF u1] poll_loop_sent [OF u2]
          del: poll_loop.simps(3))
  qed
  then have s: "StartUpdater scenario_libs scenario_updater ?cs ?w =
             Some ([scenario_info], Exited, snd (update scenario_libs scenario_updater w1))"
    by (simp add: StartUpdater_def scenario_updater_def)
  from StartUpdater_emissions [OF s] obtain n where
    n1: "n \<le> length (filter is_tick ?cs)" and
    n2: "emitted (fst (run_cycles scenario_libs scenario_updater n ?w)) =
       [scenario_info] @ (case Exited of BlockedOnSend i \<Rightarrow> [i] | _ \<Rightarrow> [])"
    by blast
  have l3: "length (filter is_tick ?cs) = 3" by simp
  have ex: "[scenario_info] @ (case Exited of BlockedOnSend i \<Rightarrow> [i] | _ \<Rightarrow> []) =
       [scenario_info]" by simp
  have "n \<le> 3" using n1 unfolding l3 .
  moreover have "emitted (fst (run_cycles scenario_libs scenario_updater n ?w)) =
       [scenario_info]" using n2 unfolding ex .
  ultimately have nn: "n \<le> 3 \<and>
       emitted (fst (run_cycles scenario_libs scenario_updater n ?w)) = [scenario_info]"
    by (rule conjI)
  have A: "\<exists>n. n \<le> 3 \<and>
      emitted (fst (run_cycles scenario_libs scenario_updater n ?w)) = [scenario_info]"
  proof (rule exI)
    show "n \<le> 3 \<and>
       emitted (fst (run_cycles scenario_libs scenario_updater n ?w)) = [scenario_info]"
      by (rule nn)
  qed
  have B: "map_option (\<lambda>r. (fst r, fst (snd r)))
     (StartUpdater scenario_libs scenario_updater ?cs ?w) = Some ([scenario_info], Exited)"
    unfolding s by simp
  from B A show ?thesis by (rule conjI)
qed

subsection \<open>What the cleanup does achieve\<close>

lemma closed_after: "h \<notin> set (open_handles (close_handle h w))"
  by (simp add: close_handle_def)

text \<open>
  Extra X2. Once \<open>zip.OpenReader\<close> has succeeded, the archive's handle is not open any
  more when \<open>unpack\<close> returns, on every path.
\<close>

theorem unpack_closes_archive:
  assumes z: "zip_OpenReader L p w = (Inr r, w1)"
  shows "zr_handle r \<notin> set (open_handles (snd (unpack L u p w)))"
proof -
  obtain err a b w2 where
    oe: "open_entries u r (enumerate 0 (zr_File r)) (None, None) w1 = ((err, a, b), w2)"
    by (metis prod_cases3 surj_pair)
  show ?thesis
    by (auto simp add: unpack_unfold [OF z oe] closed_after
        split: option.splits prod.splits sum.splits)
qed

theorem unpack_closes_archive_witness:
  "3 \<notin> set (open_handles (snd (unpack scenario_libs scenario_updater ''/tmp/archive.zip''
     (scenario_world ''zip:full'' (\<lambda>c. False)))))"
proof -
  have "zip_OpenReader scenario_libs ''/tmp/archive.zip'' (scenario_world ''zip:full'' (\<lambda>c. False)) =
     (Inr \<lparr>zr_handle = 3, zr_path = ''/tmp/archive.zip'',
           zr_File = [''info.json'', ''/opt/svc/bin/svc'']\<rparr>,
      (scenario_world ''zip:full'' (\<lambda>c. False))\<lparr>open_handles := [3], next_handle := 4\<rparr>)"
    by (simp add: eval_defs scenario_defs)
  from unpack_closes_archive [OF this, of scenario_updater] show ?thesis by simp
qed

lemma fetch_faults [simp]: "faults (snd (fetch u w)) = faults w"
  by (simp add: fetch_def http_Get_def ioutil_TempFile_def io_Copy_body_def
      alloc_handle_def close_handle_def split: option.splits)

lemma os_Create_faults [simp]: "faults (snd (os_Create q w)) = faults w"
  by (simp add: os_Create_def alloc_handle_def)

lemma io_Copy_faults [simp]: "faults (snd (io_Copy L d s w)) = faults w"
  by (simp add: io_Copy_def split: sum.splits)

lemma unpack_faults [simp]: "faults (snd (unpack L u p w)) = faults w"
proof (cases "zip_OpenReader L p w")
  case (Pair x w1)
  have g1: "faults w1 = faults w" using zip_OpenReader_faults [of L p w] by (simp add: Pair)
  show ?thesis
  proof (cases x)
    case (Inl e)
    then show ?thesis using Pair g1 by (simp add: unpack_def)
  next
    case (Inr r)
    have z: "zip_OpenReader L p w = (Inr r, w1)" using Pair Inr by simp
    obtain err a b w2 where
      oe: "open_entries u r (enumerate 0 (zr_File r)) (None, None) w1 = ((err, a, b), w2)"
      by (metis prod_cases3 surj_pair)
    have g2: "faults w2 = faults w"
      using open_entries_faults [of u r "enumerate 0 (zr_File r)" "(None, None)" w1] g1
      by (simp add: oe)
    have c: "faults w3 = faults w" if "os_Create q w2 = (x, w3)" for q x w3
      using os_Create_faults [of q w2] that g2 by simp
    have d: "faults w4 = faults w" if "os_Create q w2 = (x, w3)" "io_Copy L nf s w3 = (ce, w4)"
      for q x w3 nf s ce w4
      using io_Copy_faults [of L nf s w3] c [OF that(1)] that(2) by simp
    show ?thesis
      using g2 c d
      by (auto simp add: unpack_unfold [OF z oe] split: option.splits prod.splits sum.splits)
  qed
qed

text \<open>
  Extra X1. When \<open>fetch\<close> returns without error, the archive it wrote does not exist
  any more after \<open>update\<close>, whether \<open>unpack\<close> succeeded or failed, provided the
  removal itself does not fail.
\<close>

theorem update_removes_archive:
  assumes ft: "fetch u w = ((archivePath, None), w1)"
    and nr: "\<not> faults w (SysRemove archivePath)"
  shows "files (snd (update L u w)) archivePath = None"
proof -
  define w2 where "w2 = snd (unpack L u archivePath w1)"
  have "faults w1 = faults w" using fetch_faults [of u w] by (simp add: ft)
  then have "faults w2 = faults w" by (simp add: w2_def)
  with nr have "files (snd (os_Remove archivePath w2)) archivePath = None"
    by (simp add: os_Remove_def)
  moreover have "snd (update L u w) = snd (os_Remove archivePath w2)"
    by (simp add: update_def ft w2_def split: prod.splits)
  ultimately show ?thesis by simp
qed

theorem update_removes_archive_witness:
  "fst (update scenario_libs scenario_updater (scenario_world ''zip:no-info'' (\<lambda>c. False))) =
     (zero_Info, Some MissingEntry) \<and>
   files (snd (update scenario_libs scenario_updater (scenario_world ''zip:no-info'' (\<lambda>c. False))))
     ''/tmp/7'' = None"
proof -
  have "fst (fetch scenario_updater (scenario_world ''zip:no-info'' (\<lambda>c. False))) =
          (''/tmp/7'', None)"
    by (simp add: fetch_defs eval_defs scenario_defs)
  then have "fetch scenario_updater (scenario_world ''zip:no-info'' (\<lambda>c. False)) =
          ((''/tmp/7'', None), snd (fetch scenario_updater (scenario_world ''zip:no-info'' (\<lambda>c. False))))"
    by (simp add: prod_eq_iff)
  from update_removes_archive [OF this, of scenario_libs]
  have "files (snd (update scenario_libs scenario_updater
          (scenario_world ''zip:no-info'' (\<lambda>c. False)))) ''/tmp/7'' = None"
    by (simp add: scenario_defs)
  moreover have "fst (update scenario_libs scenario_updater
          (scenario_world ''zip:no-info'' (\<lambda>c. False))) = (zero_Info, Some MissingEntry)"
    by (simp add: fetch_defs eval_defs scenario_defs)
  ultimately show ?thesis by (rule conjI [rotated])
qed

end
